theory Spec2Isabelle
  imports Complex_Main
begin

section \<open>The LivePlayer audio session controller\<close>

text \<open>
  A shallow embedding of the class \<open>LivePlayer\<close>: its state record, its private fields,
  and every method and listener, as functions on an explicit player value. The browser
  is part of that value: the pending \<open>setTimeout\<close> callbacks with their due times, the
  pending animation-frame requests, the pending promises of \<open>liveAudio.play()\<close>, a
  clock in milliseconds, and the record of every callback invocation. The consumer and
  the browser drive the player through events (\<open>step\<close>).

  JavaScript numbers that hold volumes and times are reals here (rounding of floats is
  not modelled); the attempt counter, indices, timer handles and the clock are naturals.
  Console output is not modelled. The callbacks of the consumer are recorded and never
  throw.

  A method or closure that can throw returns \<open>Inl\<close> with the exception and the player
  as the throw left it, or \<open>Inr\<close> with the player at its end. The throws are those of
  the platform on the paths of the class: \<open>IndexSizeError\<close> when a volume outside
  \<open>[0, 1]\<close> is assigned to an audio element, \<open>TypeError\<close> when a property of \<open>null\<close> is
  written or \<open>.catch\<close> is called on the \<open>undefined\<close> that \<open>play()\<close> returns in a browser
  without play promises, and the acquisitions of \<open>init\<close>.
\<close>

subsection \<open>Data\<close>

datatype status = INTRO | LIVE_CONNECTING | LIVE_ON_AIR | LIVE_RECONNECTING | LIVE_UNAVAILABLE

record LivePlayerState =
  status :: status
  isPlaying :: bool
  volume :: real
  currentTime :: real
  duration :: real
  reconnectAttempts :: nat
  maxReconnectAttempts :: nat

text \<open>\<open>Partial<LivePlayerState>\<close>: each property is present or absent.\<close>

record updates =
  status_upd :: "status option"
  isPlaying_upd :: "bool option"
  volume_upd :: "real option"
  currentTime_upd :: "real option"
  duration_upd :: "real option"
  reconnectAttempts_upd :: "nat option"
  maxReconnectAttempts_upd :: "nat option"

definition no_updates :: updates where
  "no_updates = \<lparr>status_upd = None, isPlaying_upd = None, volume_upd = None,
     currentTime_upd = None, duration_upd = None, reconnectAttempts_upd = None,
     maxReconnectAttempts_upd = None\<rparr>"

datatype callback =
    onStateChange LivePlayerState
  | onFrequencyData "nat list"
  | onTimeUpdate real
  | onDurationChange real

text \<open>The part of an \<open>HTMLAudioElement\<close> that the controller reads or writes.\<close>

record audio =
  audio_src :: string
  audio_volume :: real
  audio_paused :: bool
  audio_currentTime :: real
  audio_duration :: real

datatype context_state = running | closed

text \<open>
  A pending \<open>setTimeout\<close> callback is one of the four closures of the class, with the
  variables it captured: the reconnect closure of \<open>handleLiveError\<close>, the \<open>crossfade\<close>
  closure with the current value of its counter \<open>step\<close>, and the two closures of
  \<open>tryStreamUrls\<close> (after a rejected \<open>play()\<close>, and the per-candidate timeout) with
  \<open>urls\<close> and \<open>index\<close>.
\<close>

datatype task =
    Reconnect
  | CrossfadeStep nat
  | PlayRetry "string list" nat
  | UrlTimeout "string list" nat

record timer =
  tid :: nat
  due :: nat
  task :: task

record LivePlayer =
  state :: LivePlayerState
  introAudio :: "audio option"
  liveAudio :: "audio option"
  audioContext :: "context_state option"
  analyser :: bool
  frequencyData :: "nat list option"
  animationFrame :: "nat option"
  reconnectTimeout :: "nat option"
  crossfadeTimeout :: "nat option"
  introListeners :: bool
  liveListeners :: bool
  introConnected :: bool
  liveConnected :: bool
  calls :: "callback list"
  timers :: "timer list"
  frames :: "nat list"
  promises :: "(nat \<times> string list \<times> nat) list"
  playPromise :: bool
  nextId :: nat
  now :: nat

text \<open>
  The constructor. \<open>playPromise\<close> says whether \<open>play()\<close> of this browser returns a
  promise (\<open>tryStreamUrls\<close> tests it). Handles start at 1, so a stored handle is truthy.
\<close>

definition new_LivePlayer :: "bool \<Rightarrow> LivePlayer" where
  "new_LivePlayer pp =
     \<lparr>state = \<lparr>status = INTRO, isPlaying = False, volume = 1/2, currentTime = 0,
        duration = 0, reconnectAttempts = 0, maxReconnectAttempts = 10\<rparr>,
      introAudio = None, liveAudio = None, audioContext = None, analyser = False,
      frequencyData = None, animationFrame = None, reconnectTimeout = None,
      crossfadeTimeout = None, introListeners = False, liveListeners = False,
      introConnected = False, liveConnected = False,
      calls = [], timers = [], frames = [], promises = [], playPromise = pp,
      nextId = 1, now = 0\<rparr>"

subsection \<open>Browser primitives\<close>

definition setTimeout :: "task \<Rightarrow> nat \<Rightarrow> LivePlayer \<Rightarrow> nat \<times> LivePlayer" where
  "setTimeout k d p =
     (nextId p,
      p\<lparr>timers := timers p @ [\<lparr>tid = nextId p, due = now p + d, task = k\<rparr>],
        nextId := Suc (nextId p)\<rparr>)"

definition clearTimeout :: "nat \<Rightarrow> LivePlayer \<Rightarrow> LivePlayer" where
  "clearTimeout i p = p\<lparr>timers := filter (\<lambda>t. tid t \<noteq> i) (timers p)\<rparr>"

definition requestAnimationFrame :: "LivePlayer \<Rightarrow> nat \<times> LivePlayer" where
  "requestAnimationFrame p =
     (nextId p, p\<lparr>frames := frames p @ [nextId p], nextId := Suc (nextId p)\<rparr>)"

definition cancelAnimationFrame :: "nat \<Rightarrow> LivePlayer \<Rightarrow> LivePlayer" where
  "cancelAnimationFrame i p = p\<lparr>frames := filter (\<lambda>f. f \<noteq> i) (frames p)\<rparr>"

definition audio_pause :: "audio \<Rightarrow> audio" where
  "audio_pause a = a\<lparr>audio_paused := True\<rparr>"

definition audio_play :: "audio \<Rightarrow> audio" where
  "audio_play a = a\<lparr>audio_paused := False\<rparr>"

definition audio_load :: "audio \<Rightarrow> audio" where
  "audio_load a = a\<lparr>audio_paused := True, audio_currentTime := 0\<rparr>"

definition new_Audio :: "string \<Rightarrow> audio" where
  "new_Audio url =
     \<lparr>audio_src = url, audio_volume = 1, audio_paused = True, audio_currentTime = 0,
      audio_duration = 0\<rparr>"

datatype fault =
    NoAudioContext
  | CreateAnalyserThrows
  | AnalyserConnectThrows
  | IntroAudioThrows
  | LiveAudioThrows

datatype exn = IndexSizeError | TypeError | Thrown fault

type_synonym outcome = "exn \<times> LivePlayer + LivePlayer"

text \<open>The player after a method or closure has run, thrown or not.\<close>

definition after :: "outcome \<Rightarrow> LivePlayer" where
  "after r = (case r of Inl (e, p) \<Rightarrow> p | Inr p \<Rightarrow> p)"

text \<open>Sequencing: the rest does not run after a throw.\<close>

definition and_then :: "outcome \<Rightarrow> (LivePlayer \<Rightarrow> outcome) \<Rightarrow> outcome" where
  "and_then r f = (case r of Inl x \<Rightarrow> Inl x | Inr p \<Rightarrow> f p)"

text \<open>
  The setter of \<open>HTMLMediaElement.volume\<close>, and the two assignments
  \<open>this.introAudio.volume = v\<close> and \<open>this.liveAudio.volume = v\<close>.
\<close>

definition set_volume :: "real \<Rightarrow> audio \<Rightarrow> exn + audio" where
  "set_volume v a =
     (if 0 \<le> v \<and> v \<le> 1 then Inr (a\<lparr>audio_volume := v\<rparr>) else Inl IndexSizeError)"

definition assign_intro_volume :: "real \<Rightarrow> LivePlayer \<Rightarrow> outcome" where
  "assign_intro_volume v p =
     (case introAudio p of
        None \<Rightarrow> Inl (TypeError, p)
      | Some a \<Rightarrow>
          (case set_volume v a of
             Inl e \<Rightarrow> Inl (e, p)
           | Inr a' \<Rightarrow> Inr (p\<lparr>introAudio := Some a'\<rparr>)))"

definition assign_live_volume :: "real \<Rightarrow> LivePlayer \<Rightarrow> outcome" where
  "assign_live_volume v p =
     (case liveAudio p of
        None \<Rightarrow> Inl (TypeError, p)
      | Some a \<Rightarrow>
          (case set_volume v a of
             Inl e \<Rightarrow> Inl (e, p)
           | Inr a' \<Rightarrow> Inr (p\<lparr>liveAudio := Some a'\<rparr>)))"

text \<open>\<open>getByteFrequencyData\<close> refills the buffer in place with the analyser's samples.\<close>

definition getByteFrequencyData :: "nat list \<Rightarrow> nat list \<Rightarrow> nat list" where
  "getByteFrequencyData samples buf =
     take (length buf) samples @ drop (length samples) buf"

subsection \<open>\<open>updateState\<close>\<close>

definition merge :: "LivePlayerState \<Rightarrow> updates \<Rightarrow> LivePlayerState" where
  "merge s u =
     \<lparr>status = (case status_upd u of None \<Rightarrow> status s | Some v \<Rightarrow> v),
      isPlaying = (case isPlaying_upd u of None \<Rightarrow> isPlaying s | Some v \<Rightarrow> v),
      volume = (case volume_upd u of None \<Rightarrow> volume s | Some v \<Rightarrow> v),
      currentTime = (case currentTime_upd u of None \<Rightarrow> currentTime s | Some v \<Rightarrow> v),
      duration = (case duration_upd u of None \<Rightarrow> duration s | Some v \<Rightarrow> v),
      reconnectAttempts =
        (case reconnectAttempts_upd u of None \<Rightarrow> reconnectAttempts s | Some v \<Rightarrow> v),
      maxReconnectAttempts =
        (case maxReconnectAttempts_upd u of None \<Rightarrow> maxReconnectAttempts s | Some v \<Rightarrow> v)\<rparr>"

definition updateState :: "updates \<Rightarrow> LivePlayer \<Rightarrow> LivePlayer" where
  "updateState u p =
     (let s = merge (state p) u
      in p\<lparr>state := s, calls := calls p @ [onStateChange s]\<rparr>)"

subsection \<open>Analysis loop, audio graph, crossfade\<close>

text \<open>One run of the closure \<open>analyze\<close>; \<open>samples\<close> is what the analyser holds.\<close>

definition analyze :: "nat list \<Rightarrow> LivePlayer \<Rightarrow> LivePlayer" where
  "analyze samples p =
     (let p1 = (case frequencyData p of
                  Some buf \<Rightarrow>
                    if analyser p
                    then (let buf' = getByteFrequencyData samples buf
                          in p\<lparr>frequencyData := Some buf',
                               calls := calls p @ [onFrequencyData buf']\<rparr>)
                    else p
                | None \<Rightarrow> p);
          (i, p2) = requestAnimationFrame p1
      in p2\<lparr>animationFrame := Some i\<rparr>)"

definition startFrequencyAnalysis :: "LivePlayer \<Rightarrow> LivePlayer" where
  "startFrequencyAnalysis p = analyze (replicate 128 0) p"

datatype source = IntroSource | LiveSource

text \<open>
  \<open>createMediaElementSource\<close> throws for a missing element and for one that is
  connected already; the method swallows it.
\<close>

definition connectAudioSource :: "source \<Rightarrow> LivePlayer \<Rightarrow> LivePlayer" where
  "connectAudioSource s p =
     (if audioContext p = None \<or> \<not> analyser p then p
      else (case s of
              IntroSource \<Rightarrow> (if introAudio p = None then p else p\<lparr>introConnected := True\<rparr>)
            | LiveSource \<Rightarrow> (if liveAudio p = None then p else p\<lparr>liveConnected := True\<rparr>)))"

text \<open>One run of the closure \<open>crossfade\<close> of \<open>startCrossfade\<close>, its counter at \<open>step\<close>.\<close>

definition crossfade :: "nat \<Rightarrow> LivePlayer \<Rightarrow> outcome" where
  "crossfade step p =
     (if introAudio p = None \<or> liveAudio p = None then Inr p
      else (let progress = real step / 50;
                introVolume = (1 - progress) * volume (state p);
                liveVolume = progress * volume (state p)
            in and_then (assign_intro_volume (max 0 introVolume) p) (\<lambda>p1.
               and_then (assign_live_volume (max 0 liveVolume) p1) (\<lambda>p2.
                 (let step1 = step + 1
                  in if step1 \<le> 50
                     then (let (i, p3) = setTimeout (CrossfadeStep step1) 40 p2
                           in Inr (p3\<lparr>crossfadeTimeout := Some i\<rparr>))
                     else Inr (p2\<lparr>introAudio :=
                            map_option (\<lambda>a. (audio_pause a)\<lparr>audio_currentTime := 0\<rparr>)
                              (introAudio p2)\<rparr>))))))"

definition startCrossfade :: "LivePlayer \<Rightarrow> outcome" where
  "startCrossfade p =
     (if introAudio p = None \<or> liveAudio p = None then Inr p
      else (let p1 = (case crossfadeTimeout p of
                        Some i \<Rightarrow> clearTimeout i p
                      | None \<Rightarrow> p)
            in crossfade 0 p1))"

subsection \<open>Reconnect handler and candidate fallback\<close>

definition handleLiveError :: "LivePlayer \<Rightarrow> LivePlayer" where
  "handleLiveError p =
     (let attempts = reconnectAttempts (state p) + 1
      in if attempts \<ge> maxReconnectAttempts (state p)
         then updateState (no_updates\<lparr>status_upd := Some LIVE_UNAVAILABLE,
                isPlaying_upd := Some False, reconnectAttempts_upd := Some attempts\<rparr>) p
         else (let p1 = updateState (no_updates\<lparr>status_upd := Some LIVE_RECONNECTING,
                          reconnectAttempts_upd := Some attempts\<rparr>) p;
                   (i, p2) = setTimeout Reconnect 3000 p1
               in p2\<lparr>reconnectTimeout := Some i\<rparr>))"

definition tryStreamUrls :: "string list \<Rightarrow> nat \<Rightarrow> LivePlayer \<Rightarrow> LivePlayer" where
  "tryStreamUrls urls index p =
     (case liveAudio p of
        None \<Rightarrow> handleLiveError p
      | Some la \<Rightarrow>
         if index \<ge> length urls then handleLiveError p
         else (let url = urls ! index;
                   p1 = p\<lparr>liveAudio := Some (audio_load (la\<lparr>audio_src := url\<rparr>))\<rparr>;
                   p2 = connectAudioSource LiveSource p1;
                   p3 = p2\<lparr>liveAudio := map_option audio_play (liveAudio p2)\<rparr>;
                   p4 = (if playPromise p3
                         then p3\<lparr>promises := promises p3 @ [(nextId p3, urls, index)],
                                 nextId := Suc (nextId p3)\<rparr>
                         else p3);
                   (i, p5) = setTimeout (UrlTimeout urls index) 5000 p4
               in p5))"

definition streamUrls :: "string list" where
  "streamUrls =
     [''https://radio.killedbythegalaxy.com/radio/8000/radio.mp3'',
      ''https://stream.zeno.fm/your-fallback-stream'',
      ''/music/intro.mp3'']"

definition goLiveNow :: "LivePlayer \<Rightarrow> LivePlayer" where
  "goLiveNow p =
     (if liveAudio p = None then p
      else (let p1 = (case reconnectTimeout p of
                        Some i \<Rightarrow> (clearTimeout i p)\<lparr>reconnectTimeout := None\<rparr>
                      | None \<Rightarrow> p);
                p2 = updateState (no_updates\<lparr>status_upd := Some LIVE_CONNECTING,
                       reconnectAttempts_upd := Some 0\<rparr>) p1
            in tryStreamUrls streamUrls 0 p2))"

subsection \<open>The other intents\<close>

text \<open>
  \<open>this.introAudio?.play().catch(console.error)\<close>: with no element the whole chain is
  skipped; with one, \<open>play()\<close> runs and \<open>.catch\<close> throws where \<open>play()\<close> returned no
  promise.
\<close>

definition togglePlayPause :: "LivePlayer \<Rightarrow> outcome" where
  "togglePlayPause p =
     (if status (state p) = INTRO then
        (if isPlaying (state p)
         then Inr (p\<lparr>introAudio := map_option audio_pause (introAudio p)\<rparr>)
         else (case introAudio p of
                 None \<Rightarrow> Inr (connectAudioSource IntroSource p)
               | Some a \<Rightarrow>
                   (let p1 = p\<lparr>introAudio := Some (audio_play a)\<rparr>
                    in if playPromise p1 then Inr (connectAudioSource IntroSource p1)
                       else Inl (TypeError, p1))))
      else if status (state p) = LIVE_ON_AIR then
        (if isPlaying (state p)
         then Inr (p\<lparr>liveAudio := map_option audio_pause (liveAudio p)\<rparr>)
         else (case liveAudio p of
                 None \<Rightarrow> Inr p
               | Some a \<Rightarrow>
                   (let p1 = p\<lparr>liveAudio := Some (audio_play a)\<rparr>
                    in if playPromise p1 then Inr p1 else Inl (TypeError, p1))))
      else Inr p)"

definition setVolume :: "real \<Rightarrow> LivePlayer \<Rightarrow> outcome" where
  "setVolume v p =
     (let p1 = updateState (no_updates\<lparr>volume_upd := Some v\<rparr>) p
      in and_then (if introAudio p1 = None then Inr p1 else assign_intro_volume v p1) (\<lambda>p2.
           if liveAudio p2 = None then Inr p2 else assign_live_volume v p2))"

definition teardown :: "LivePlayer \<Rightarrow> LivePlayer" where
  "teardown p =
     (let p1 = (case reconnectTimeout p of Some i \<Rightarrow> clearTimeout i p | None \<Rightarrow> p);
          p2 = (case crossfadeTimeout p1 of Some i \<Rightarrow> clearTimeout i p1 | None \<Rightarrow> p1);
          p3 = (case animationFrame p2 of Some i \<Rightarrow> cancelAnimationFrame i p2 | None \<Rightarrow> p2);
          p4 = p3\<lparr>introAudio :=
                 map_option (\<lambda>a. audio_load ((audio_pause a)\<lparr>audio_src := []\<rparr>)) (introAudio p3)\<rparr>;
          p5 = p4\<lparr>liveAudio :=
                 map_option (\<lambda>a. audio_load ((audio_pause a)\<lparr>audio_src := []\<rparr>)) (liveAudio p4)\<rparr>
      in (case audioContext p5 of
            Some running \<Rightarrow> p5\<lparr>audioContext := Some closed\<rparr>
          | _ \<Rightarrow> p5))"

subsection \<open>\<open>init\<close>\<close>

text \<open>
  \<open>init_try\<close> is the \<open>try\<close> block. \<open>f\<close> names the acquisition from the audio
  subsystem that throws, if one does; the two volume assignments throw by themselves
  when the state's volume is out of range. \<open>init\<close> adds the \<open>catch\<close>; \<open>Inl\<close> from
  \<open>init\<close> would be a rejected promise.
\<close>

definition setupIntroListeners :: "LivePlayer \<Rightarrow> LivePlayer" where
  "setupIntroListeners p = (if introAudio p = None then p else p\<lparr>introListeners := True\<rparr>)"

definition setupLiveListeners :: "LivePlayer \<Rightarrow> LivePlayer" where
  "setupLiveListeners p = (if liveAudio p = None then p else p\<lparr>liveListeners := True\<rparr>)"

definition init_try :: "fault option \<Rightarrow> LivePlayer \<Rightarrow> outcome" where
  "init_try f p =
     (if f = Some NoAudioContext then Inl (Thrown NoAudioContext, p)
      else let p1 = p\<lparr>audioContext := Some running\<rparr> in
      if f = Some CreateAnalyserThrows then Inl (Thrown CreateAnalyserThrows, p1)
      else let p2 = p1\<lparr>analyser := True, frequencyData := Some (replicate 128 0)\<rparr> in
      if f = Some AnalyserConnectThrows then Inl (Thrown AnalyserConnectThrows, p2)
      else if f = Some IntroAudioThrows then Inl (Thrown IntroAudioThrows, p2)
      else let p3 = p2\<lparr>introAudio := Some (new_Audio ''/music/intro.mp3'')\<rparr> in
      and_then (assign_intro_volume (volume (state p3)) p3) (\<lambda>p4.
        if f = Some LiveAudioThrows then Inl (Thrown LiveAudioThrows, p4)
        else let p5 = p4\<lparr>liveAudio := Some (new_Audio [])\<rparr> in
        and_then (assign_live_volume (volume (state p5)) p5) (\<lambda>p6.
          let p7 = setupLiveListeners (setupIntroListeners p6);
              p8 = startFrequencyAnalysis p7
          in Inr (updateState (no_updates\<lparr>status_upd := Some INTRO\<rparr>) p8))))"

definition init :: "fault option \<Rightarrow> LivePlayer \<Rightarrow> outcome" where
  "init f p =
     (case init_try f p of
        Inr q \<Rightarrow> Inr q
      | Inl (e, q) \<Rightarrow> Inr (updateState (no_updates\<lparr>status_upd := Some LIVE_UNAVAILABLE\<rparr>) q))"

subsection \<open>Listeners and events\<close>

datatype media_event =
    loadedmetadata real
  | timeupdate real
  | ended
  | play
  | pause
  | error
  | stalled
  | canplay
  | canplaythrough
  | loadstart

text \<open>
  The listeners of \<open>setupIntroListeners\<close>. \<open>loadedmetadata\<close> and \<open>timeupdate\<close> carry the
  value the element holds when the event is dispatched.
\<close>

definition intro_listener :: "media_event \<Rightarrow> LivePlayer \<Rightarrow> LivePlayer" where
  "intro_listener ev p =
     (case ev of
        loadedmetadata d \<Rightarrow>
          (case introAudio p of
             Some a \<Rightarrow> updateState (no_updates\<lparr>duration_upd := Some (audio_duration a)\<rparr>) p
           | None \<Rightarrow> p)
      | timeupdate t \<Rightarrow>
          (case introAudio p of
             Some a \<Rightarrow>
               (let p1 = updateState
                           (no_updates\<lparr>currentTime_upd := Some (audio_currentTime a)\<rparr>) p
                in p1\<lparr>calls := calls p1 @ [onTimeUpdate (audio_currentTime a)]\<rparr>)
           | None \<Rightarrow> p)
      | ended \<Rightarrow> goLiveNow (updateState (no_updates\<lparr>isPlaying_upd := Some False\<rparr>) p)
      | play \<Rightarrow> updateState (no_updates\<lparr>isPlaying_upd := Some True\<rparr>) p
      | pause \<Rightarrow> updateState (no_updates\<lparr>isPlaying_upd := Some False\<rparr>) p
      | error \<Rightarrow> goLiveNow p
      | _ \<Rightarrow> p)"

definition live_listener :: "media_event \<Rightarrow> LivePlayer \<Rightarrow> outcome" where
  "live_listener ev p =
     (case ev of
        canplay \<Rightarrow>
          (if status (state p) = LIVE_CONNECTING
           then startCrossfade (updateState (no_updates\<lparr>status_upd := Some LIVE_ON_AIR,
                  isPlaying_upd := Some True\<rparr>) p)
           else Inr p)
      | play \<Rightarrow>
          (if status (state p) = LIVE_ON_AIR
           then Inr (updateState (no_updates\<lparr>isPlaying_upd := Some True\<rparr>) p)
           else Inr p)
      | pause \<Rightarrow> Inr (updateState (no_updates\<lparr>isPlaying_upd := Some False\<rparr>) p)
      | error \<Rightarrow> Inr (handleLiveError p)
      | stalled \<Rightarrow> Inr (handleLiveError p)
      | _ \<Rightarrow> Inr p)"

text \<open>What the element holds when the browser dispatches the event.\<close>

definition element_at :: "media_event \<Rightarrow> audio \<Rightarrow> audio" where
  "element_at ev a =
     (case ev of
        loadedmetadata d \<Rightarrow> a\<lparr>audio_duration := d\<rparr>
      | timeupdate t \<Rightarrow> a\<lparr>audio_currentTime := t\<rparr>
      | _ \<Rightarrow> a)"

fun run_task :: "task \<Rightarrow> LivePlayer \<Rightarrow> outcome" where
  "run_task Reconnect p = Inr (goLiveNow p)"
| "run_task (CrossfadeStep step) p = crossfade step p"
| "run_task (PlayRetry urls index) p = Inr (tryStreamUrls urls (index + 1) p)"
| "run_task (UrlTimeout urls index) p =
     (if status (state p) = LIVE_CONNECTING then Inr (tryStreamUrls urls (index + 1) p)
      else Inr p)"

datatype event =
    GoLiveNow
  | TogglePlayPause
  | SetVolume real
  | Teardown
  | IntroEvent media_event
  | LiveEvent media_event
  | PlayRejected nat
  | Timeout nat
  | Frame nat "nat list"
  | Wait nat

text \<open>
  One event. \<open>Timeout i\<close> runs the pending timer \<open>i\<close>, at its due time at the earliest;
  \<open>PlayRejected i\<close> runs the \<open>catch\<close> handler of the pending promise \<open>i\<close>; \<open>Frame i xs\<close>
  runs the requested animation frame \<open>i\<close> with the analyser holding \<open>xs\<close>; \<open>Wait d\<close>
  lets \<open>d\<close> milliseconds pass. An event for a timer, promise or frame that is not
  pending, and a media event with no element or no listener, changes nothing. An
  exception leaves the player as the throw left it: that of an intent goes to the
  consumer, that of a listener or a timer callback is reported by the browser.
\<close>

fun step :: "event \<Rightarrow> LivePlayer \<Rightarrow> LivePlayer" where
  "step GoLiveNow p = goLiveNow p"
| "step TogglePlayPause p = after (togglePlayPause p)"
| "step (SetVolume v) p = after (setVolume v p)"
| "step Teardown p = teardown p"
| "step (IntroEvent ev) p =
     (case introAudio p of
        None \<Rightarrow> p
      | Some a \<Rightarrow>
          (let p1 = p\<lparr>introAudio := Some (element_at ev a)\<rparr>
           in if introListeners p then intro_listener ev p1 else p1))"
| "step (LiveEvent ev) p =
     (case liveAudio p of
        None \<Rightarrow> p
      | Some a \<Rightarrow>
          (let p1 = p\<lparr>liveAudio := Some (element_at ev a)\<rparr>
           in if liveListeners p then after (live_listener ev p1) else p1))"
| "step (PlayRejected i) p =
     (case find (\<lambda>(j, urls, index). j = i) (promises p) of
        None \<Rightarrow> p
      | Some (j, urls, index) \<Rightarrow>
          snd (setTimeout (PlayRetry urls index) 1000
                 (p\<lparr>promises := filter (\<lambda>(j, urls, index). j \<noteq> i) (promises p)\<rparr>)))"
| "step (Timeout i) p =
     (case find (\<lambda>t. tid t = i) (timers p) of
        None \<Rightarrow> p
      | Some t \<Rightarrow>
          after (run_task (task t)
            (p\<lparr>timers := filter (\<lambda>t. tid t \<noteq> i) (timers p), now := max (now p) (due t)\<rparr>)))"
| "step (Frame i samples) p =
     (if i \<in> set (frames p)
      then analyze samples (p\<lparr>frames := filter (\<lambda>f. f \<noteq> i) (frames p)\<rparr>)
      else p)"
| "step (Wait d) p = p\<lparr>now := now p + d\<rparr>"

definition run :: "event list \<Rightarrow> LivePlayer \<Rightarrow> LivePlayer" where
  "run evs p = fold step evs p"

text \<open>
  A trace is timely when the browser could produce it: a timer fires only when pending
  and earliest (the older one first among equals), time never passes a pending timer,
  and only pending promises and frames are resolved.
\<close>

definition earliest :: "timer \<Rightarrow> LivePlayer \<Rightarrow> bool" where
  "earliest t p =
     list_all (\<lambda>u. due t < due u \<or> (due t = due u \<and> tid t \<le> tid u)) (timers p)"

fun possible :: "event \<Rightarrow> LivePlayer \<Rightarrow> bool" where
  "possible (Timeout i) p =
     (case find (\<lambda>t. tid t = i) (timers p) of
        None \<Rightarrow> False
      | Some t \<Rightarrow> now p \<le> due t \<and> earliest t p)"
| "possible (Wait d) p = list_all (\<lambda>u. now p + d \<le> due u) (timers p)"
| "possible (PlayRejected i) p = (i \<in> set (map fst (promises p)))"
| "possible (Frame i samples) p = (i \<in> set (frames p))"
| "possible (IntroEvent ev) p = (introAudio p \<noteq> None)"
| "possible (LiveEvent ev) p = (liveAudio p \<noteq> None)"
| "possible _ p = True"

fun timely :: "event list \<Rightarrow> LivePlayer \<Rightarrow> bool" where
  "timely [] p = True"
| "timely (e # es) p = (possible e p \<and> timely es (step e p))"

text \<open>The player a consumer holds after \<open>new LivePlayer(callbacks)\<close> and \<open>await init()\<close>.\<close>

definition started :: "fault option \<Rightarrow> LivePlayer" where
  "started f = after (init f (new_LivePlayer True))"

subsection \<open>Observations\<close>

text \<open>
  The counter of a snapshot is below the ceiling unless the session is unavailable, and
  the ceiling is the constructor's.
\<close>

definition within_ceiling :: "LivePlayerState \<Rightarrow> bool" where
  "within_ceiling s =
     (maxReconnectAttempts s = 10 \<and>
      (status s \<noteq> LIVE_UNAVAILABLE \<longrightarrow> reconnectAttempts s < maxReconnectAttempts s))"

text \<open>The state snapshots among the recorded callback invocations, oldest first.\<close>

fun snapshots :: "callback list \<Rightarrow> LivePlayerState list" where
  "snapshots [] = []"
| "snapshots (onStateChange s # cs) = s # snapshots cs"
| "snapshots (c # cs) = snapshots cs"

text \<open>
  What every method and listener keeps: the ceiling property of the state and of every
  snapshot delivered, the last snapshot delivered being the state, and timer handles
  being older than the next handle.
\<close>

definition consistent :: "LivePlayer \<Rightarrow> bool" where
  "consistent p =
     (within_ceiling (state p) \<and>
      list_all within_ceiling (snapshots (calls p)) \<and>
      snapshots (calls p) \<noteq> [] \<and> last (snapshots (calls p)) = state p \<and>
      list_all (\<lambda>t. tid t < nextId p) (timers p))"

text \<open>Time passes until the earliest pending timer fires.\<close>

definition next_timer :: "LivePlayer \<Rightarrow> timer option" where
  "next_timer p = find (\<lambda>t. earliest t p) (timers p)"

definition elapse :: "LivePlayer \<Rightarrow> LivePlayer" where
  "elapse p = (case next_timer p of None \<Rightarrow> p | Some t \<Rightarrow> step (Timeout (tid t)) p)"

text \<open>The pending timer of the crossfade fires.\<close>

definition crossfade_tick :: "LivePlayer \<Rightarrow> LivePlayer" where
  "crossfade_tick p = (case crossfadeTimeout p of None \<Rightarrow> p | Some i \<Rightarrow> step (Timeout i) p)"

text \<open>
  A crossfade is under way at counter \<open>k\<close>: both sources exist and the stored crossfade
  handle is that of a pending timer holding the closure with \<open>step = k\<close>.
\<close>

definition fading :: "nat \<Rightarrow> LivePlayer \<Rightarrow> bool" where
  "fading k p =
     (introAudio p \<noteq> None \<and> liveAudio p \<noteq> None \<and>
      list_all (\<lambda>t. tid t < nextId p) (timers p) \<and>
      (case crossfadeTimeout p of
         None \<Rightarrow> False
       | Some i \<Rightarrow>
           (case find (\<lambda>t. tid t = i) (timers p) of
              None \<Rightarrow> False
            | Some t \<Rightarrow> task t = CrossfadeStep k)))"

text \<open>
  The four phases of a go-live sequence in which no candidate ever becomes playable and
  nothing but timers happens: the timeout of candidate \<open>j\<close> pending (\<open>j < 3\<close>), or the
  reconnect delay pending (\<open>j = 3\<close>).
\<close>

definition cycle_phase :: "nat \<Rightarrow> LivePlayer \<Rightarrow> bool" where
  "cycle_phase j p =
     (liveAudio p \<noteq> None \<and> maxReconnectAttempts (state p) = 10 \<and>
      map task (timers p) = [if j = 3 then Reconnect else UrlTimeout streamUrls j] \<and>
      status (state p) = (if j = 3 then LIVE_RECONNECTING else LIVE_CONNECTING) \<and>
      reconnectAttempts (state p) = (if j = 3 then 1 else 0))"

text \<open>Events other than a volume intent.\<close>

fun is_SetVolume :: "event \<Rightarrow> bool" where
  "is_SetVolume (SetVolume v) = True"
| "is_SetVolume _ = False"

text \<open>From \<open>p\<close> to \<open>q\<close> the target volume is the same and no source has been lost.\<close>

definition same_target :: "LivePlayer \<Rightarrow> LivePlayer \<Rightarrow> bool" where
  "same_target p q =
     (volume (state q) = volume (state p) \<and>
      (introAudio p \<noteq> None \<longrightarrow> introAudio q \<noteq> None) \<and>
      (liveAudio p \<noteq> None \<longrightarrow> liveAudio q \<noteq> None))"

section \<open>What every step keeps\<close>

lemma snapshots_append [simp]: "snapshots (cs @ ds) = snapshots cs @ snapshots ds"
  by (induction cs rule: snapshots.induct) simp_all

lemma length_streamUrls [simp]: "length streamUrls = 3"
  by (simp add: streamUrls_def)

lemma list_all_less_Suc: "list_all (\<lambda>t. tid t < n) ts \<Longrightarrow> list_all (\<lambda>t. tid t < Suc n) ts"
  by (induction ts) auto

lemma list_all_filter: "list_all P ts \<Longrightarrow> list_all P (filter Q ts)"
  by (induction ts) auto

lemma consistent_updateState:
  "consistent p \<Longrightarrow> within_ceiling (merge (state p) u) \<Longrightarrow> consistent (updateState u p)"
  by (simp add: consistent_def updateState_def Let_def)

lemma consistent_setTimeout: "consistent p \<Longrightarrow> consistent (snd (setTimeout k d p))"
  by (simp add: consistent_def setTimeout_def list_all_less_Suc)

lemma consistent_clearTimeout: "consistent p \<Longrightarrow> consistent (clearTimeout i p)"
  by (simp add: consistent_def clearTimeout_def list_all_filter)

text \<open>Fields outside the invariant.\<close>

lemma consistent_fields [simp]:
  "consistent (p\<lparr>introAudio := a\<rparr>) = consistent p"
  "consistent (p\<lparr>liveAudio := a\<rparr>) = consistent p"
  "consistent (p\<lparr>reconnectTimeout := h\<rparr>) = consistent p"
  "consistent (p\<lparr>crossfadeTimeout := h\<rparr>) = consistent p"
  "consistent (p\<lparr>animationFrame := h\<rparr>) = consistent p"
  "consistent (p\<lparr>audioContext := c\<rparr>) = consistent p"
  "consistent (p\<lparr>introConnected := b\<rparr>) = consistent p"
  "consistent (p\<lparr>liveConnected := b\<rparr>) = consistent p"
  "consistent (p\<lparr>frames := fs\<rparr>) = consistent p"
  "consistent (p\<lparr>now := n\<rparr>) = consistent p"
  "consistent (p\<lparr>frequencyData := fd\<rparr>) = consistent p"
  by (simp_all add: consistent_def)

lemma consistent_handleLiveError: "consistent p \<Longrightarrow> consistent (handleLiveError p)"
proof -
  assume c: "consistent p"
  let ?n = "reconnectAttempts (state p) + 1"
  let ?down = "no_updates\<lparr>status_upd := Some LIVE_UNAVAILABLE, isPlaying_upd := Some False,
                 reconnectAttempts_upd := Some ?n\<rparr>"
  let ?retry = "no_updates\<lparr>status_upd := Some LIVE_RECONNECTING,
                  reconnectAttempts_upd := Some ?n\<rparr>"
  have max: "maxReconnectAttempts (state p) = 10"
    using c by (simp add: consistent_def within_ceiling_def)
  show ?thesis
  proof (cases "maxReconnectAttempts (state p) \<le> ?n")
    case True
    have "within_ceiling (merge (state p) ?down)"
      using max by (simp add: within_ceiling_def merge_def no_updates_def)
    with c have "consistent (updateState ?down p)" by (rule consistent_updateState)
    with True show ?thesis by (simp add: handleLiveError_def)
  next
    case False
    have "within_ceiling (merge (state p) ?retry)"
      using max False by (simp add: within_ceiling_def merge_def no_updates_def)
    with c have "consistent (updateState ?retry p)" by (rule consistent_updateState)
    then have "consistent (snd (setTimeout Reconnect 3000 (updateState ?retry p)))"
      by (rule consistent_setTimeout)
    with False show ?thesis by (simp add: handleLiveError_def Let_def split_beta)
  qed
qed

lemma connectAudioSource_fields [simp]:
  "state (connectAudioSource s p) = state p"
  "calls (connectAudioSource s p) = calls p"
  "timers (connectAudioSource s p) = timers p"
  "nextId (connectAudioSource s p) = nextId p"
  "now (connectAudioSource s p) = now p"
  "promises (connectAudioSource s p) = promises p"
  "playPromise (connectAudioSource s p) = playPromise p"
  "introAudio (connectAudioSource s p) = introAudio p"
  "liveAudio (connectAudioSource s p) = liveAudio p"
  "reconnectTimeout (connectAudioSource s p) = reconnectTimeout p"
  "crossfadeTimeout (connectAudioSource s p) = crossfadeTimeout p"
  by (simp_all add: connectAudioSource_def split: source.splits)

lemma consistent_tryStreamUrls: "consistent p \<Longrightarrow> consistent (tryStreamUrls urls i p)"
proof -
  assume c: "consistent p"
  show ?thesis
  proof (cases "liveAudio p")
    case None
    with c show ?thesis by (simp add: tryStreamUrls_def consistent_handleLiveError)
  next
    case (Some la)
    show ?thesis
    proof (cases "length urls \<le> i")
      case True
      with c Some show ?thesis by (simp add: tryStreamUrls_def consistent_handleLiveError)
    next
      case False
      from c False Some show ?thesis
        by (simp add: tryStreamUrls_def Let_def split_beta consistent_def setTimeout_def
            list_all_less_Suc)
    qed
  qed
qed

lemma consistent_goLiveNow: "consistent p \<Longrightarrow> consistent (goLiveNow p)"
proof -
  assume c: "consistent p"
  let ?fresh = "no_updates\<lparr>status_upd := Some LIVE_CONNECTING, reconnectAttempts_upd := Some 0\<rparr>"
  define p1 where "p1 = (case reconnectTimeout p of
                        Some i \<Rightarrow> (clearTimeout i p)\<lparr>reconnectTimeout := None\<rparr>
                      | None \<Rightarrow> p)"
  have c1: "consistent p1"
    using c by (simp add: p1_def consistent_clearTimeout split: option.splits)
  then have "within_ceiling (merge (state p1) ?fresh)"
    by (simp add: consistent_def within_ceiling_def merge_def no_updates_def)
  with c1 have "consistent (updateState ?fresh p1)" by (rule consistent_updateState)
  then have "consistent (tryStreamUrls streamUrls 0 (updateState ?fresh p1))"
    by (rule consistent_tryStreamUrls)
  with c show ?thesis by (simp add: goLiveNow_def Let_def p1_def)
qed

lemma after_simps [simp]: "after (Inr p) = p" "after (Inl (e, p)) = p"
  by (simp_all add: after_def)

lemma after_and_then:
  assumes "P (after r)" and "\<And>q. r = Inr q \<Longrightarrow> P (after (f q))"
  shows "P (after (and_then r f))"
  using assms by (cases r) (auto simp: and_then_def)

lemma consistent_assign_volume:
  "consistent (after (assign_intro_volume v p)) = consistent p"
  "consistent (after (assign_live_volume v p)) = consistent p"
  by (auto simp: assign_intro_volume_def assign_live_volume_def set_volume_def
      split: option.splits)

lemma assign_volume_Inr:
  "assign_intro_volume v p = Inr q \<Longrightarrow> consistent q = consistent p"
  "assign_live_volume v p = Inr q \<Longrightarrow> consistent q = consistent p"
  using consistent_assign_volume [of v p] by simp_all

lemma consistent_and_then:
  "consistent (after r) \<Longrightarrow> (\<And>q. r = Inr q \<Longrightarrow> consistent (after (f q))) \<Longrightarrow>
     consistent (after (and_then r f))"
  by (rule after_and_then [where P = consistent])

lemma consistent_crossfade: "consistent p \<Longrightarrow> consistent (after (crossfade k p))"
proof -
  assume c: "consistent p"
  have rest: "consistent (after
      (let step1 = k + 1
       in if step1 \<le> 50
          then (let (i, p3) = setTimeout (CrossfadeStep step1) 40 q
                in Inr (p3\<lparr>crossfadeTimeout := Some i\<rparr>))
          else Inr (q\<lparr>introAudio :=
                 map_option (\<lambda>a. (audio_pause a)\<lparr>audio_currentTime := 0\<rparr>) (introAudio q)\<rparr>)))"
    if "consistent q" for q
    using that by (simp add: Let_def split_beta consistent_setTimeout)
  show ?thesis
    unfolding crossfade_def
    apply (simp only: Let_def split: if_splits)
    apply (intro conjI impI)
     apply (simp add: c)
    apply (rule consistent_and_then)
     apply (simp add: consistent_assign_volume c)
    apply (rule consistent_and_then)
     apply (simp add: consistent_assign_volume assign_volume_Inr c)
    apply (rule rest [unfolded Let_def])
    apply (simp add: assign_volume_Inr c)
    done
qed

lemma consistent_startCrossfade: "consistent p \<Longrightarrow> consistent (after (startCrossfade p))"
  by (simp add: startCrossfade_def Let_def consistent_crossfade consistent_clearTimeout
      split: option.splits)

lemma consistent_unrelated:
  "consistent p \<Longrightarrow> consistent (updateState (no_updates\<lparr>isPlaying_upd := Some b\<rparr>) p)"
  "consistent p \<Longrightarrow> consistent (updateState (no_updates\<lparr>duration_upd := Some d\<rparr>) p)"
  "consistent p \<Longrightarrow> consistent (updateState (no_updates\<lparr>currentTime_upd := Some d\<rparr>) p)"
  "consistent p \<Longrightarrow> consistent (updateState (no_updates\<lparr>volume_upd := Some d\<rparr>) p)"
  by (auto simp: consistent_def updateState_def Let_def within_ceiling_def merge_def
      no_updates_def)

lemma consistent_onTimeUpdate:
  "consistent (p\<lparr>calls := calls p @ [onTimeUpdate t]\<rparr>) = consistent p"
  by (simp add: consistent_def)

lemma consistent_intro_listener: "consistent p \<Longrightarrow> consistent (intro_listener ev p)"
  by (cases ev)
     (simp_all add: intro_listener_def Let_def consistent_unrelated consistent_goLiveNow
        consistent_onTimeUpdate [of "updateState u q" for u q, simplified] split: option.splits)


lemma consistent_live_listener: "consistent p \<Longrightarrow> consistent (after (live_listener ev p))"
proof (cases ev)
  case canplay
  assume c: "consistent p"
  let ?air = "no_updates\<lparr>status_upd := Some LIVE_ON_AIR, isPlaying_upd := Some True\<rparr>"
  have "consistent (after (startCrossfade (updateState ?air p)))"
    if "status (state p) = LIVE_CONNECTING"
  proof -
    have "within_ceiling (merge (state p) ?air)"
      using c that by (simp add: consistent_def within_ceiling_def merge_def no_updates_def)
    with c have "consistent (updateState ?air p)" by (rule consistent_updateState)
    then show ?thesis by (rule consistent_startCrossfade)
  qed
  with c canplay show ?thesis by (simp add: live_listener_def)
qed (simp_all add: live_listener_def consistent_unrelated consistent_handleLiveError)

lemma consistent_run_task: "consistent p \<Longrightarrow> consistent (after (run_task k p))"
  by (cases k) (simp_all add: consistent_goLiveNow consistent_crossfade consistent_tryStreamUrls)

lemma consistent_togglePlayPause: "consistent p \<Longrightarrow> consistent (after (togglePlayPause p))"
  by (simp add: togglePlayPause_def consistent_def Let_def split: option.splits)

lemma consistent_setVolume: "consistent p \<Longrightarrow> consistent (after (setVolume v p))"
proof -
  assume "consistent p"
  then have c: "consistent (updateState (no_updates\<lparr>volume_upd := Some v\<rparr>) p)"
    by (rule consistent_unrelated)
  let ?p1 = "updateState (no_updates\<lparr>volume_upd := Some v\<rparr>) p"
  let ?r = "if introAudio ?p1 = None then Inr ?p1 else assign_intro_volume v ?p1"
  have "consistent (after (and_then ?r
           (\<lambda>p2. if liveAudio p2 = None then Inr p2 else assign_live_volume v p2)))"
  proof (rule consistent_and_then)
    show "consistent (after ?r)" using c by (simp add: consistent_assign_volume)
  next
    fix q assume "?r = Inr q"
    then have "consistent q" using c assign_volume_Inr(1) [of v ?p1 q]
      by (simp split: if_splits)
    then show "consistent (after (if liveAudio q = None then Inr q else assign_live_volume v q))"
      by (simp add: consistent_assign_volume)
  qed
  then show ?thesis by (simp add: setVolume_def Let_def)
qed

lemma consistent_teardown: "consistent p \<Longrightarrow> consistent (teardown p)"
  by (simp add: teardown_def Let_def consistent_def clearTimeout_def cancelAnimationFrame_def
      list_all_filter split: option.splits context_state.splits)

lemma consistent_analyze: "consistent p \<Longrightarrow> consistent (analyze xs p)"
  by (simp add: analyze_def Let_def consistent_def requestAnimationFrame_def list_all_less_Suc
      split: option.splits)

lemma consistent_step: "consistent p \<Longrightarrow> consistent (step e p)"
proof (cases e)
  case (PlayRejected i)
  assume c: "consistent p"
  have "consistent (snd (setTimeout k 1000 (p\<lparr>promises := ps\<rparr>)))" for k ps
    using c by (simp add: consistent_def setTimeout_def list_all_less_Suc)
  with c PlayRejected show ?thesis by (simp split: option.splits prod.splits)
next
  case (Timeout i)
  assume c: "consistent p"
  have "consistent (p\<lparr>timers := filter (\<lambda>t. tid t \<noteq> i) (timers p), now := n\<rparr>)" for n
    using c by (simp add: consistent_def list_all_filter)
  with c Timeout show ?thesis by (simp add: consistent_run_task split: option.splits)
qed (simp_all add: Let_def consistent_goLiveNow consistent_togglePlayPause consistent_setVolume
      consistent_teardown consistent_intro_listener consistent_live_listener consistent_analyze
      split: option.splits)

lemma consistent_run: "consistent p \<Longrightarrow> consistent (run evs p)"
  unfolding run_def by (induction evs arbitrary: p) (simp_all add: consistent_step)

lemma consistent_started: "consistent (started f)"
  by (simp add: started_def init_def init_try_def new_LivePlayer_def consistent_def
      within_ceiling_def updateState_def merge_def no_updates_def Let_def
      startFrequencyAnalysis_def analyze_def requestAnimationFrame_def setupIntroListeners_def
      setupLiveListeners_def and_then_def assign_intro_volume_def assign_live_volume_def
      set_volume_def new_Audio_def)

section \<open>What every step but a volume intent keeps\<close>

lemma same_target_refl [simp]: "same_target p p"
  by (simp add: same_target_def)

lemma same_target_trans: "same_target p q \<Longrightarrow> same_target q r \<Longrightarrow> same_target p r"
  by (auto simp: same_target_def)

lemma same_target_and_then:
  "same_target p (after r) \<Longrightarrow> (\<And>q. r = Inr q \<Longrightarrow> same_target p (after (f q))) \<Longrightarrow>
     same_target p (after (and_then r f))"
  by (rule after_and_then [where P = "same_target p"])

lemma same_target_handleLiveError: "same_target p (handleLiveError p)"
  by (simp add: same_target_def handleLiveError_def updateState_def merge_def no_updates_def
      setTimeout_def Let_def)

lemma same_target_tryStreamUrls: "same_target p (tryStreamUrls urls i p)"
proof (cases "liveAudio p = None \<or> length urls \<le> i")
  case True
  then show ?thesis
    by (auto simp: tryStreamUrls_def same_target_handleLiveError split: option.splits)
next
  case False
  then show ?thesis
    by (auto simp: tryStreamUrls_def same_target_def setTimeout_def Let_def)
qed

lemma same_target_goLiveNow: "same_target p (goLiveNow p)"
proof (cases "liveAudio p")
  case None
  then show ?thesis by (simp add: goLiveNow_def)
next
  case (Some la)
  let ?fresh = "no_updates\<lparr>status_upd := Some LIVE_CONNECTING, reconnectAttempts_upd := Some 0\<rparr>"
  define p1 where "p1 = (case reconnectTimeout p of
                        Some i \<Rightarrow> (clearTimeout i p)\<lparr>reconnectTimeout := None\<rparr>
                      | None \<Rightarrow> p)"
  have "same_target p (updateState ?fresh p1)"
    by (simp add: p1_def same_target_def updateState_def merge_def no_updates_def clearTimeout_def
        Let_def split: option.splits)
  then have "same_target p (tryStreamUrls streamUrls 0 (updateState ?fresh p1))"
    using same_target_tryStreamUrls by (rule same_target_trans)
  with Some show ?thesis by (simp add: goLiveNow_def Let_def p1_def)
qed

lemma same_target_assign_volume:
  "same_target p (after (assign_intro_volume v p))"
  "same_target p (after (assign_live_volume v p))"
  by (auto simp: same_target_def assign_intro_volume_def assign_live_volume_def set_volume_def
      split: option.splits)

lemma same_target_crossfade: "same_target p (after (crossfade k p))"
proof (cases "introAudio p = None \<or> liveAudio p = None")
  case True
  then show ?thesis by (auto simp: crossfade_def)
next
  case False
  have rest: "same_target q (after
      (if k + 1 \<le> 50
       then (let (i, p3) = setTimeout (CrossfadeStep (k + 1)) 40 q
             in Inr (p3\<lparr>crossfadeTimeout := Some i\<rparr>))
       else Inr (q\<lparr>introAudio :=
              map_option (\<lambda>a. (audio_pause a)\<lparr>audio_currentTime := 0\<rparr>) (introAudio q)\<rparr>)))" for q
    by (simp add: same_target_def setTimeout_def Let_def)
  have main: "same_target p (after (and_then (assign_intro_volume a p) (\<lambda>p1.
          and_then (assign_live_volume b p1) (\<lambda>p2.
            if k + 1 \<le> 50
            then (let (i, p3) = setTimeout (CrossfadeStep (k + 1)) 40 p2
                  in Inr (p3\<lparr>crossfadeTimeout := Some i\<rparr>))
            else Inr (p2\<lparr>introAudio :=
                   map_option (\<lambda>a. (audio_pause a)\<lparr>audio_currentTime := 0\<rparr>)
                     (introAudio p2)\<rparr>)))))" for a b
  proof (rule same_target_and_then)
    show "same_target p (after (assign_intro_volume a p))" by (rule same_target_assign_volume)
  next
    fix q assume "assign_intro_volume a p = Inr q"
    with same_target_assign_volume(1) [of p a] have pq: "same_target p q" by simp
    show "same_target p (after (and_then (assign_live_volume b q) (\<lambda>p2.
            if k + 1 \<le> 50
            then (let (i, p3) = setTimeout (CrossfadeStep (k + 1)) 40 p2
                  in Inr (p3\<lparr>crossfadeTimeout := Some i\<rparr>))
            else Inr (p2\<lparr>introAudio :=
                   map_option (\<lambda>a. (audio_pause a)\<lparr>audio_currentTime := 0\<rparr>)
                     (introAudio p2)\<rparr>))))"
    proof (rule same_target_and_then)
      show "same_target p (after (assign_live_volume b q))"
        using pq same_target_assign_volume(2) by (rule same_target_trans)
    next
      fix q' assume "assign_live_volume b q = Inr q'"
      with same_target_assign_volume(2) [of q b] have "same_target q q'" by simp
      with pq have "same_target p q'" by (rule same_target_trans)
      then show "same_target p (after
        (if k + 1 \<le> 50
         then (let (i, p3) = setTimeout (CrossfadeStep (k + 1)) 40 q'
               in Inr (p3\<lparr>crossfadeTimeout := Some i\<rparr>))
         else Inr (q'\<lparr>introAudio :=
                map_option (\<lambda>a. (audio_pause a)\<lparr>audio_currentTime := 0\<rparr>) (introAudio q')\<rparr>)))"
        using rest by (rule same_target_trans)
    qed
  qed
  show ?thesis
    unfolding crossfade_def Let_def
    by (simp only: False if_False) (rule main [unfolded Let_def])
qed

lemma same_target_startCrossfade: "same_target p (after (startCrossfade p))"
proof -
  define p1 where "p1 = (case crossfadeTimeout p of Some i \<Rightarrow> clearTimeout i p | None \<Rightarrow> p)"
  have "same_target p p1"
    by (simp add: p1_def same_target_def clearTimeout_def split: option.splits)
  then have "same_target p (after (crossfade 0 p1))"
    using same_target_crossfade by (rule same_target_trans)
  then show ?thesis by (simp add: startCrossfade_def Let_def p1_def)
qed

lemma same_target_unrelated:
  "volume_upd u = None \<Longrightarrow> same_target p (updateState u p)"
  by (simp add: same_target_def updateState_def merge_def Let_def)

lemma same_target_intro_listener: "same_target p (intro_listener ev p)"
proof (cases ev)
  case ended
  have "same_target p (updateState (no_updates\<lparr>isPlaying_upd := Some False\<rparr>) p)"
    by (rule same_target_unrelated) (simp add: no_updates_def)
  then have "same_target p (goLiveNow (updateState (no_updates\<lparr>isPlaying_upd := Some False\<rparr>) p))"
    using same_target_goLiveNow by (rule same_target_trans)
  with ended show ?thesis by (simp add: intro_listener_def)
next
  case error
  then show ?thesis by (simp add: intro_listener_def same_target_goLiveNow)
qed (auto simp: intro_listener_def same_target_def updateState_def
       merge_def no_updates_def Let_def split: option.splits)

lemma same_target_live_listener: "same_target p (after (live_listener ev p))"
proof (cases ev)
  case canplay
  let ?air = "no_updates\<lparr>status_upd := Some LIVE_ON_AIR, isPlaying_upd := Some True\<rparr>"
  have "same_target p (updateState ?air p)"
    by (rule same_target_unrelated) (simp add: no_updates_def)
  then have "same_target p (after (startCrossfade (updateState ?air p)))"
    using same_target_startCrossfade by (rule same_target_trans)
  with canplay show ?thesis by (simp add: live_listener_def)
qed (auto simp: live_listener_def same_target_handleLiveError same_target_unrelated
       no_updates_def)

lemma same_target_run_task: "same_target p (after (run_task k p))"
  by (cases k)
     (simp_all add: same_target_goLiveNow same_target_crossfade same_target_tryStreamUrls)

lemma same_target_step: "\<not> is_SetVolume e \<Longrightarrow> same_target p (step e p)"
proof (cases e)
  case (IntroEvent ev)
  have "same_target p (intro_listener ev (p\<lparr>introAudio := Some a\<rparr>))" for a
  proof -
    have "same_target p (p\<lparr>introAudio := Some a\<rparr>)" by (simp add: same_target_def)
    then show ?thesis using same_target_intro_listener by (rule same_target_trans)
  qed
  with IntroEvent show ?thesis by (simp add: Let_def same_target_def split: option.splits)
next
  case (LiveEvent ev)
  have "same_target p (after (live_listener ev (p\<lparr>liveAudio := Some a\<rparr>)))" for a
  proof -
    have "same_target p (p\<lparr>liveAudio := Some a\<rparr>)" by (simp add: same_target_def)
    then show ?thesis using same_target_live_listener by (rule same_target_trans)
  qed
  with LiveEvent show ?thesis by (simp add: Let_def same_target_def split: option.splits)
next
  case (Timeout i)
  have "same_target p (after (run_task k (p\<lparr>timers := ts, now := n\<rparr>)))" for k ts n
  proof -
    have "same_target p (p\<lparr>timers := ts, now := n\<rparr>)" by (simp add: same_target_def)
    then show ?thesis using same_target_run_task by (rule same_target_trans)
  qed
  with Timeout show ?thesis by (simp split: option.splits)
next
  case TogglePlayPause
  then show ?thesis
    by (auto simp: togglePlayPause_def same_target_def connectAudioSource_def Let_def
        split: option.splits)
next
  case Teardown
  then show ?thesis
    by (auto simp: teardown_def same_target_def clearTimeout_def cancelAnimationFrame_def Let_def
        split: option.splits context_state.splits)
next
  case (Frame i xs)
  then show ?thesis
    by (auto simp: analyze_def same_target_def requestAnimationFrame_def Let_def
        split: option.splits)
next
  case (PlayRejected i)
  then show ?thesis
    by (auto simp: same_target_def setTimeout_def split: option.splits prod.splits)
qed (simp_all add: same_target_goLiveNow, simp add: same_target_def)

lemma same_target_run:
  "list_all (\<lambda>e. \<not> is_SetVolume e) evs \<Longrightarrow> same_target p (run evs p)"
proof (induction evs arbitrary: p)
  case Nil
  then show ?case by (simp add: run_def)
next
  case (Cons e evs)
  then have "same_target p (step e p)" and "same_target (step e p) (run evs (step e p))"
    by (simp_all add: same_target_step)
  then have "same_target p (run evs (step e p))" by (rule same_target_trans)
  then show ?case by (simp add: run_def)
qed

section \<open>Evaluating traces\<close>

lemmas unfold_run = run_def started_def init_def init_try_def new_LivePlayer_def
  after_def and_then_def set_volume_def assign_intro_volume_def assign_live_volume_def
  togglePlayPause_def
  startFrequencyAnalysis_def analyze_def requestAnimationFrame_def setupLiveListeners_def
  setupIntroListeners_def getByteFrequencyData_def new_Audio_def updateState_def merge_def
  no_updates_def goLiveNow_def tryStreamUrls_def handleLiveError_def setTimeout_def
  clearTimeout_def connectAudioSource_def audio_load_def audio_play_def audio_pause_def
  Let_def crossfade_def startCrossfade_def live_listener_def intro_listener_def
  element_at_def teardown_def setVolume_def earliest_def cancelAnimationFrame_def

section \<open>The crossfade, tick by tick\<close>

lemma find_newest:
  "list_all (\<lambda>t. tid t < n) ts \<Longrightarrow> tid x = n \<Longrightarrow> find (\<lambda>t. tid t = n) (ts @ [x]) = Some x"
  by (induction ts) auto

lemma scaled_volume_le_1:
  fixes c v :: real
  assumes "0 \<le> c" and "c \<le> 1" and "v \<le> 1"
  shows "max 0 (c * v) \<le> 1"
proof (cases "0 \<le> v")
  case True
  with assms have "c * v \<le> 1 * 1" by (intro mult_mono) simp_all
  then show ?thesis by simp
next
  case False
  with assms have "c * v \<le> 0" by (simp add: mult_nonneg_nonpos)
  then show ?thesis by simp
qed

lemma fade_volumes_in_range:
  assumes "k \<le> 50" and "v \<le> 1"
  shows "max 0 ((1 - real k / 50) * v) \<le> 1" and "max 0 (real k / 50 * v) \<le> 1"
proof -
  from assms(1) have "0 \<le> 1 - real k / 50" "1 - real k / 50 \<le> 1"
    "0 \<le> real k / 50" "real k / 50 \<le> 1" by simp_all
  with assms(2) show "max 0 ((1 - real k / 50) * v) \<le> 1" "max 0 (real k / 50 * v) \<le> 1"
    by (simp_all only: scaled_volume_le_1)
qed

lemma assign_both_volumes:
  assumes "introAudio p = Some ia" and "liveAudio p = Some la"
    and "0 \<le> a" and "a \<le> 1" and "0 \<le> b" and "b \<le> 1"
  shows "and_then (assign_intro_volume a p) (\<lambda>p1. and_then (assign_live_volume b p1) f) =
         f (p\<lparr>introAudio := Some (ia\<lparr>audio_volume := a\<rparr>),
              liveAudio := Some (la\<lparr>audio_volume := b\<rparr>)\<rparr>)"
  using assms
  by (simp add: and_then_def assign_intro_volume_def assign_live_volume_def set_volume_def)

lemma crossfade_below_50:
  assumes "introAudio p = Some ia" and "liveAudio p = Some la" and "k < 50"
    and "volume (state p) \<le> 1"
  shows "crossfade k p =
      (let (i, p3) = setTimeout (CrossfadeStep (k + 1)) 40
         (p\<lparr>introAudio := Some (ia\<lparr>audio_volume := max 0 ((1 - real k / 50) * volume (state p))\<rparr>),
            liveAudio := Some (la\<lparr>audio_volume := max 0 (real k / 50 * volume (state p))\<rparr>)\<rparr>)
       in Inr (p3\<lparr>crossfadeTimeout := Some i\<rparr>))"
proof -
  from assms(3) have k: "k \<le> 50" by simp
  note r = fade_volumes_in_range [OF k assms(4)]
  have z: "0 \<le> max 0 ((1 - real k / 50) * volume (state p))"
    "0 \<le> max 0 (real k / 50 * volume (state p))" by simp_all
  note v = assign_both_volumes [OF assms(1,2) z(1) r(1) z(2) r(2)]
  show ?thesis
    unfolding crossfade_def Let_def using assms(1,2,3)
    by (simp only: v) simp
qed

lemma crossfade_rearms:
  assumes "introAudio p = Some ia" and "liveAudio p = Some la"
    and "list_all (\<lambda>t. tid t < nextId p) (timers p)" and "k < 50"
    and "volume (state p) \<le> 1"
  shows "fading (Suc k) (after (crossfade k p))"
    and "state (after (crossfade k p)) = state p"
    and "introAudio (after (crossfade k p)) =
           Some (ia\<lparr>audio_volume := max 0 ((1 - real k / 50) * volume (state p))\<rparr>)"
    and "liveAudio (after (crossfade k p)) =
           Some (la\<lparr>audio_volume := max 0 (real k / 50 * volume (state p))\<rparr>)"
proof -
  note e = crossfade_below_50 [OF assms(1,2,4,5)]
  show "fading (Suc k) (after (crossfade k p))"
    using assms(3) by (simp add: e fading_def setTimeout_def find_newest list_all_less_Suc)
  show "state (after (crossfade k p)) = state p" by (simp add: e setTimeout_def)
  show "introAudio (after (crossfade k p)) =
           Some (ia\<lparr>audio_volume := max 0 ((1 - real k / 50) * volume (state p))\<rparr>)"
    by (simp add: e setTimeout_def)
  show "liveAudio (after (crossfade k p)) =
           Some (la\<lparr>audio_volume := max 0 (real k / 50 * volume (state p))\<rparr>)"
    by (simp add: e setTimeout_def)
qed

lemma crossfade_completes:
  assumes "introAudio p = Some ia" and "liveAudio p = Some la" and "volume (state p) \<le> 1"
  shows "crossfade 50 p =
           Inr (p\<lparr>introAudio := Some (ia\<lparr>audio_volume := 0, audio_paused := True,
                                       audio_currentTime := 0\<rparr>),
                  liveAudio := Some (la\<lparr>audio_volume := max 0 (volume (state p))\<rparr>)\<rparr>)"
proof -
  have k: "(50::nat) \<le> 50" by simp
  note r = fade_volumes_in_range [OF k assms(3)]
  have z: "0 \<le> max 0 ((1 - real (50::nat) / 50) * volume (state p))"
    "0 \<le> max 0 (real (50::nat) / 50 * volume (state p))" by simp_all
  note v = assign_both_volumes [OF assms(1,2) z(1) r(1) z(2) r(2)]
  show ?thesis
    unfolding crossfade_def Let_def using assms(1,2)
    by (simp only: v) (simp add: audio_pause_def)
qed

lemma crossfade_volumes:
  assumes "introAudio p = Some ia" and "liveAudio p = Some la" and "k \<le> 50"
    and "volume (state p) \<le> 1"
  shows "map_option audio_volume (introAudio (after (crossfade k p))) =
           Some (max 0 ((1 - real k / 50) * volume (state p)))"
    and "map_option audio_volume (liveAudio (after (crossfade k p))) =
           Some (max 0 (real k / 50 * volume (state p)))"
proof -
  consider "k < 50" | "k = 50" using assms(3) by linarith
  then have "map_option audio_volume (introAudio (after (crossfade k p))) =
           Some (max 0 ((1 - real k / 50) * volume (state p))) \<and>
        map_option audio_volume (liveAudio (after (crossfade k p))) =
           Some (max 0 (real k / 50 * volume (state p)))"
  proof cases
    case 1
    show ?thesis
      by (simp add: crossfade_below_50 [OF assms(1,2) 1 assms(4)] setTimeout_def)
  next
    case 2
    show ?thesis
      by (simp add: 2 crossfade_completes [OF assms(1,2,4)])
  qed
  then show "map_option audio_volume (introAudio (after (crossfade k p))) =
           Some (max 0 ((1 - real k / 50) * volume (state p)))"
    and "map_option audio_volume (liveAudio (after (crossfade k p))) =
           Some (max 0 (real k / 50 * volume (state p)))"
    by simp_all
qed

lemma tick_runs_crossfade:
  assumes "fading k p"
  obtains i and t :: timer where "crossfadeTimeout p = Some i"
    and "crossfade_tick p =
           after (crossfade k (p\<lparr>timers := filter (\<lambda>t. tid t \<noteq> i) (timers p),
                                 now := max (now p) (due t)\<rparr>))"
proof -
  from assms obtain i where i: "crossfadeTimeout p = Some i"
    by (auto simp: fading_def split: option.splits)
  with assms obtain t where t: "find (\<lambda>t. tid t = i) (timers p) = Some t"
    and k: "task t = CrossfadeStep k"
    by (auto simp: fading_def split: option.splits)
  have "crossfade_tick p =
          after (crossfade k (p\<lparr>timers := filter (\<lambda>t. tid t \<noteq> i) (timers p),
                                now := max (now p) (due t)\<rparr>))"
    using i t k by (simp add: crossfade_tick_def)
  with i show thesis by (rule that)
qed

lemma fading_tick:
  assumes "fading k p" and "k < 50" and "volume (state p) \<le> 1"
  shows "fading (Suc k) (crossfade_tick p)"
    and "state (crossfade_tick p) = state p"
    and "map_option audio_volume (introAudio (crossfade_tick p)) =
           Some (max 0 ((1 - real k / 50) * volume (state p)))"
    and "map_option audio_volume (liveAudio (crossfade_tick p)) =
           Some (max 0 (real k / 50 * volume (state p)))"
proof -
  from assms(1) obtain i and t :: timer where tick: "crossfade_tick p =
      after (crossfade k (p\<lparr>timers := filter (\<lambda>t. tid t \<noteq> i) (timers p),
                            now := max (now p) (due t)\<rparr>))"
    by (rule tick_runs_crossfade)
  let ?p = "p\<lparr>timers := filter (\<lambda>t. tid t \<noteq> i) (timers p), now := max (now p) (due t)\<rparr>"
  from assms(1) obtain ia la where a: "introAudio ?p = Some ia" "liveAudio ?p = Some la"
    by (auto simp: fading_def)
  from assms(1) have f: "list_all (\<lambda>t. tid t < nextId ?p) (timers ?p)"
    by (simp add: fading_def list_all_filter)
  from assms(3) have v: "volume (state ?p) \<le> 1" by simp
  note r = crossfade_rearms [OF a f assms(2) v]
  show "fading (Suc k) (crossfade_tick p)" using r(1) tick by simp
  show "state (crossfade_tick p) = state p" using r(2) tick by simp
  show "map_option audio_volume (introAudio (crossfade_tick p)) =
           Some (max 0 ((1 - real k / 50) * volume (state p)))" using r(3) tick by simp
  show "map_option audio_volume (liveAudio (crossfade_tick p)) =
           Some (max 0 (real k / 50 * volume (state p)))" using r(4) tick by simp
qed

lemma fading_ticks:
  "fading k p \<Longrightarrow> k + n \<le> 50 \<Longrightarrow> volume (state p) \<le> 1 \<Longrightarrow>
     fading (k + n) ((crossfade_tick ^^ n) p) \<and>
     state ((crossfade_tick ^^ n) p) = state p"
proof (induction n)
  case 0
  then show ?case by simp
next
  case (Suc n)
  then have "fading (k + n) ((crossfade_tick ^^ n) p)"
    and s: "state ((crossfade_tick ^^ n) p) = state p" and "k + n < 50"
    by simp_all
  moreover from s Suc.prems(3) have "volume (state ((crossfade_tick ^^ n) p)) \<le> 1" by simp
  ultimately show ?case using fading_tick(1,2) [of "k + n" "(crossfade_tick ^^ n) p"] by simp
qed

lemma final_step:
  assumes "introAudio q = Some ia" and "liveAudio q = Some la"
    and "find (\<lambda>t. tid t = i) (timers q) = Some t" and "task t = CrossfadeStep 50"
    and "volume (state q) \<le> 1"
  shows "step (Timeout i) q =
           q\<lparr>timers := filter (\<lambda>t. tid t \<noteq> i) (timers q), now := max (now q) (due t),
             introAudio := Some (ia\<lparr>audio_volume := 0, audio_paused := True,
                                  audio_currentTime := 0\<rparr>),
             liveAudio := Some (la\<lparr>audio_volume := max 0 (volume (state q))\<rparr>)\<rparr>"
proof -
  let ?q = "q\<lparr>timers := filter (\<lambda>t. tid t \<noteq> i) (timers q), now := max (now q) (due t)\<rparr>"
  have a: "introAudio ?q = Some ia" "liveAudio ?q = Some la" "volume (state ?q) \<le> 1"
    using assms by simp_all
  show ?thesis using assms(3,4) by (simp add: crossfade_completes [OF a])
qed

lemma fading_last_tick:
  assumes "fading 50 p" and "volume (state p) \<le> 1"
  shows "state (crossfade_tick p) = state p"
    and "map_option audio_volume (introAudio (crossfade_tick p)) = Some 0"
    and "map_option audio_paused (introAudio (crossfade_tick p)) = Some True"
    and "map_option audio_currentTime (introAudio (crossfade_tick p)) = Some 0"
    and "map_option audio_volume (liveAudio (crossfade_tick p)) =
           Some (max 0 (volume (state p)))"
    and "list_all (\<lambda>t. Some (tid t) \<noteq> crossfadeTimeout (crossfade_tick p))
           (timers (crossfade_tick p))"
proof -
  from assms(1) obtain i where i: "crossfadeTimeout p = Some i"
    by (auto simp: fading_def split: option.splits)
  with assms(1) obtain t where t: "find (\<lambda>t. tid t = i) (timers p) = Some t"
    and k: "task t = CrossfadeStep 50"
    by (auto simp: fading_def split: option.splits)
  from assms(1) obtain ia la where a: "introAudio p = Some ia" "liveAudio p = Some la"
    by (auto simp: fading_def)
  have e: "crossfade_tick p = step (Timeout i) p" using i by (simp add: crossfade_tick_def)
  note f = final_step [OF a t k assms(2)]
  show "state (crossfade_tick p) = state p" by (simp only: e f) simp
  show "map_option audio_volume (introAudio (crossfade_tick p)) = Some 0"
    by (simp only: e f) simp
  show "map_option audio_paused (introAudio (crossfade_tick p)) = Some True"
    by (simp only: e f) simp
  show "map_option audio_currentTime (introAudio (crossfade_tick p)) = Some 0"
    by (simp only: e f) simp
  show "map_option audio_volume (liveAudio (crossfade_tick p)) = Some (max 0 (volume (state p)))"
    by (simp only: e f) simp
  show "list_all (\<lambda>t. Some (tid t) \<noteq> crossfadeTimeout (crossfade_tick p))
           (timers (crossfade_tick p))"
    by (simp only: e f) (simp add: i list_all_iff)
qed

lemma startCrossfade_fading:
  assumes "introAudio p = Some ia" and "liveAudio p = Some la"
    and "list_all (\<lambda>t. tid t < nextId p) (timers p)" and "volume (state p) \<le> 1"
  shows "fading 1 (after (startCrossfade p))" and "state (after (startCrossfade p)) = state p"
proof -
  define p1 where "p1 = (case crossfadeTimeout p of Some i \<Rightarrow> clearTimeout i p | None \<Rightarrow> p)"
  have a: "introAudio p1 = Some ia" "liveAudio p1 = Some la"
    using assms by (simp_all add: p1_def clearTimeout_def split: option.splits)
  have f: "list_all (\<lambda>t. tid t < nextId p1) (timers p1)"
    using assms by (simp add: p1_def clearTimeout_def list_all_filter split: option.splits)
  have s: "state p1 = state p" by (simp add: p1_def clearTimeout_def split: option.splits)
  have e: "startCrossfade p = crossfade 0 p1"
    using assms by (simp add: startCrossfade_def p1_def Let_def)
  have z: "(0::nat) < 50" by simp
  from assms(4) s have v: "volume (state p1) \<le> 1" by simp
  from crossfade_rearms(1,2) [OF a f z v] e s
  show "fading 1 (after (startCrossfade p))" and "state (after (startCrossfade p)) = state p"
    by simp_all
qed

lemma startCrossfade_throws:
  assumes "introAudio p = Some ia" and "liveAudio p = Some la" and "1 < volume (state p)"
  shows "startCrossfade p =
           Inl (IndexSizeError,
                case crossfadeTimeout p of Some i \<Rightarrow> clearTimeout i p | None \<Rightarrow> p)"
  using assms
  by (simp add: startCrossfade_def crossfade_def Let_def and_then_def assign_intro_volume_def
      set_volume_def clearTimeout_def split: option.splits)

lemma fading_setVolume: "fading k p \<Longrightarrow> fading k (after (setVolume v p))"
  by (auto simp: fading_def setVolume_def updateState_def Let_def and_then_def
      assign_intro_volume_def assign_live_volume_def set_volume_def split: option.splits)

lemma setVolume_in_range:
  assumes "introAudio p = Some ia" and "liveAudio p = Some la" and "0 \<le> v" and "v \<le> 1"
  shows "setVolume v p =
           Inr ((updateState (no_updates\<lparr>volume_upd := Some v\<rparr>) p)
                 \<lparr>introAudio := Some (ia\<lparr>audio_volume := v\<rparr>),
                  liveAudio := Some (la\<lparr>audio_volume := v\<rparr>)\<rparr>)"
  using assms
  by (simp add: setVolume_def updateState_def Let_def and_then_def assign_intro_volume_def
      assign_live_volume_def set_volume_def)

lemma setVolume_out_of_range:
  assumes "introAudio p = Some ia" and "\<not> (0 \<le> v \<and> v \<le> 1)"
  shows "setVolume v p =
           Inl (IndexSizeError, updateState (no_updates\<lparr>volume_upd := Some v\<rparr>) p)"
  using assms
  by (auto simp: setVolume_def updateState_def Let_def and_then_def assign_intro_volume_def
      set_volume_def)

section \<open>A go-live sequence that only times out\<close>

lemma elapse_single:
  assumes "timers p = [t]"
  shows "elapse p = after (run_task (task t) (p\<lparr>timers := [], now := max (now p) (due t)\<rparr>))"
  using assms by (simp add: elapse_def next_timer_def earliest_def)

lemma cycle_phase_elapse:
  assumes "cycle_phase j p" and "j < 4"
  shows "cycle_phase (Suc j mod 4) (elapse p)"
proof -
  from assms(1) obtain t where t: "timers p = [t]"
    and k: "task t = (if j = 3 then Reconnect else UrlTimeout streamUrls j)"
    by (auto simp: cycle_phase_def)
  from assms(1) obtain la where la: "liveAudio p = Some la"
    by (auto simp: cycle_phase_def)
  note e = elapse_single [OF t]
  consider "j = 3" | "j = 2" | "j < 2" using assms(2) by linarith
  then show ?thesis
  proof cases
    case 1
    with assms(1) e k la show ?thesis
      by (simp add: cycle_phase_def goLiveNow_def tryStreamUrls_def updateState_def merge_def
          no_updates_def setTimeout_def clearTimeout_def Let_def split: option.splits)
  next
    case 2
    with assms(1) e k la show ?thesis
      by (simp add: cycle_phase_def tryStreamUrls_def handleLiveError_def updateState_def
          merge_def no_updates_def setTimeout_def Let_def)
  next
    case 3
    with assms(1) e k la show ?thesis
      by (simp add: cycle_phase_def tryStreamUrls_def setTimeout_def Let_def)
  qed
qed

lemma cycle_phase_elapses:
  "cycle_phase 0 p \<Longrightarrow> cycle_phase (n mod 4) ((elapse ^^ n) p)"
proof (induction n)
  case 0
  then show ?case by simp
next
  case (Suc n)
  then have "cycle_phase (n mod 4) ((elapse ^^ n) p)" by simp
  then have "cycle_phase (Suc (n mod 4) mod 4) (elapse ((elapse ^^ n) p))"
    by (rule cycle_phase_elapse) simp
  then show ?case by (simp add: mod_Suc_eq)
qed

lemma goLive_starts_cycle: "cycle_phase 0 (step GoLiveNow (started None))"
  by (simp add: cycle_phase_def unfold_run)

section \<open>The claims\<close>

text \<open>
  C1, at the trace the claim describes. After \<open>init\<close> and \<open>goLiveNow\<close> the three
  candidate timeouts fire in turn (5000, 10000, 15000 ms); the handler leaves
  \<open>LIVE_RECONNECTING\<close> with \<open>reconnectAttempts = 1\<close> and one reconnect timer due at
  18000 ms. When that timer fires, its closure calls \<open>goLiveNow\<close>, whose update names
  \<open>reconnectAttempts: 0\<close>: the controller is back in \<open>LIVE_CONNECTING\<close> with the
  counter at 0, not 1.
\<close>

theorem reconnect_timer_resets_attempts:
  "(let evs = [GoLiveNow, Timeout 3, Timeout 5, Timeout 7];
        p = run evs (started None); q = step (Timeout 8) p
    in timely (evs @ [Timeout 8]) (started None) \<and>
       status (state p) = LIVE_RECONNECTING \<and> reconnectAttempts (state p) = 1 \<and>
       map (\<lambda>t. (tid t, due t, task t)) (timers p) = [(8, 18000, Reconnect)] \<and>
       now q = 18000 \<and> status (state q) = LIVE_CONNECTING \<and>
       reconnectAttempts (state q) = 0)"
  by (simp add: unfold_run)

text \<open>
  C2, as the code has it. In every state reached from an initialised player by any events,
  and in every snapshot delivered to \<open>onStateChange\<close> on the way, the ceiling is 10 and
  \<open>reconnectAttempts\<close> is below it unless \<open>status\<close> is \<open>LIVE_UNAVAILABLE\<close>. Each run of
  \<open>handleLiveError\<close> adds exactly one to the counter, and when the new value reaches the
  ceiling the same update sets \<open>LIVE_UNAVAILABLE\<close> and arms no timer. (The handler
  does not look at \<open>status\<close>, so in \<open>LIVE_UNAVAILABLE\<close> the counter goes on past the
  ceiling.)
\<close>

theorem attempts_below_ceiling_outside_unavailable:
  "within_ceiling (state (run evs (started f))) \<and>
   list_all within_ceiling (snapshots (calls (run evs (started f)))) \<and>
   (let q = handleLiveError p
    in reconnectAttempts (state q) = reconnectAttempts (state p) + 1 \<and>
       (if maxReconnectAttempts (state p) \<le> reconnectAttempts (state q)
        then status (state q) = LIVE_UNAVAILABLE \<and> timers q = timers p
        else status (state q) = LIVE_RECONNECTING))"
proof -
  have "consistent (run evs (started f))"
    by (rule consistent_run) (rule consistent_started)
  moreover have "let q = handleLiveError p
    in reconnectAttempts (state q) = reconnectAttempts (state p) + 1 \<and>
       (if maxReconnectAttempts (state p) \<le> reconnectAttempts (state q)
        then status (state q) = LIVE_UNAVAILABLE \<and> timers q = timers p
        else status (state q) = LIVE_RECONNECTING)"
    by (simp add: handleLiveError_def Let_def updateState_def merge_def no_updates_def
        setTimeout_def)
  ultimately show ?thesis by (simp add: consistent_def)
qed

text \<open>After a go-live and one live \<open>error\<close>: reconnecting, one attempt, below 10.\<close>

theorem attempts_below_ceiling_outside_unavailable_witness:
  "status (state (run [GoLiveNow, LiveEvent error] (started None))) = LIVE_RECONNECTING \<and>
   reconnectAttempts (state (run [GoLiveNow, LiveEvent error] (started None))) = 1 \<and>
   maxReconnectAttempts (state (run [GoLiveNow, LiveEvent error] (started None))) = 10"
  using attempts_below_ceiling_outside_unavailable
          [of "[GoLiveNow, LiveEvent error]" None "started None"]
  by (simp add: unfold_run within_ceiling_def)

text \<open>
  C2 as stated fails: eleven \<open>stalled\<close> events of the live source, 200 ms apart and so
  before the first reconnect timer (due 3000 ms after the first of them), leave the
  counter at 11 over a ceiling of 10, and that state is the last snapshot delivered.
\<close>

theorem attempts_exceed_ceiling:
  "(let evs = [GoLiveNow, Wait 200, LiveEvent stalled, Wait 200, LiveEvent stalled,
               Wait 200, LiveEvent stalled, Wait 200, LiveEvent stalled,
               Wait 200, LiveEvent stalled, Wait 200, LiveEvent stalled,
               Wait 200, LiveEvent stalled, Wait 200, LiveEvent stalled,
               Wait 200, LiveEvent stalled, Wait 200, LiveEvent stalled,
               Wait 200, LiveEvent stalled];
        p = run evs (started None)
    in timely evs (started None) \<and> reconnectAttempts (state p) = 11 \<and>
       maxReconnectAttempts (state p) = 10 \<and> last (calls p) = onStateChange (state p))"
  by (simp add: unfold_run)

text \<open>
  C3. From a fresh go-live in which no candidate ever becomes playable and only timers
  fire, the state after \<open>n\<close> timer firings depends on \<open>n mod 4\<close> alone: three candidate
  timeouts in \<open>LIVE_CONNECTING\<close> with the counter at 0, then the reconnect delay in
  \<open>LIVE_RECONNECTING\<close> with the counter at 1, and again. So for every \<open>n\<close>, the ten
  failed cycles of the claim included (\<open>n = 39\<close>), \<open>status\<close> is not \<open>LIVE_UNAVAILABLE\<close>
  and a timer is pending that will change the state when it fires.
\<close>

theorem retries_never_give_up:
  "(let q = (elapse ^^ n) (step GoLiveNow (started None))
    in status (state q) = (if n mod 4 = 3 then LIVE_RECONNECTING else LIVE_CONNECTING) \<and>
       reconnectAttempts (state q) = (if n mod 4 = 3 then 1 else 0) \<and>
       map task (timers q) =
         [if n mod 4 = 3 then Reconnect else UrlTimeout streamUrls (n mod 4)])"
  using cycle_phase_elapses [OF goLive_starts_cycle, of n]
  by (simp add: cycle_phase_def Let_def)

text \<open>
  C4, as the code has it. \<open>goLiveNow\<close> does not look at \<open>status\<close>. With no live source
  it does nothing. With one it cancels the stored reconnect timer, sets
  \<open>LIVE_CONNECTING\<close> and \<open>reconnectAttempts = 0\<close>, points the live source at the first
  candidate and plays it, and arms a new 5000 ms timeout for candidate 0, whatever the
  status was.
\<close>

theorem goLiveNow_restarts_from_any_status:
  "(case liveAudio p of
      None \<Rightarrow> goLiveNow p = p
    | Some la \<Rightarrow>
        (let q = goLiveNow p
         in status (state q) = LIVE_CONNECTING \<and> reconnectAttempts (state q) = 0 \<and>
            map_option audio_src (liveAudio q) = Some (streamUrls ! 0) \<and>
            map_option audio_paused (liveAudio q) = Some False \<and>
            last (timers q) =
              \<lparr>tid = (if playPromise p then Suc (nextId p) else nextId p),
               due = now p + 5000, task = UrlTimeout streamUrls 0\<rparr> \<and>
            (case reconnectTimeout p of
               None \<Rightarrow> butlast (timers q) = timers p
             | Some i \<Rightarrow> butlast (timers q) = filter (\<lambda>t. tid t \<noteq> i) (timers p)) \<and>
            reconnectTimeout q = None))"
  by (simp add: goLiveNow_def tryStreamUrls_def updateState_def merge_def no_updates_def
      setTimeout_def clearTimeout_def Let_def audio_load_def audio_play_def
      split: option.splits)

text \<open>
  At \<open>LIVE_ON_AIR\<close>, reached by a go-live and \<open>canplay\<close>.
\<close>

theorem goLiveNow_restarts_from_any_status_witness:
  "(let p = run [GoLiveNow, LiveEvent canplay] (started None); q = goLiveNow p
    in liveAudio p \<noteq> None \<and> status (state p) = LIVE_ON_AIR \<and>
       status (state q) = LIVE_CONNECTING \<and> reconnectAttempts (state q) = 0)"
  using goLiveNow_restarts_from_any_status
          [of "run [GoLiveNow, LiveEvent canplay] (started None)"]
  by (simp add: unfold_run)

text \<open>
  C4 as stated fails. From \<open>LIVE_ON_AIR\<close> a go-live intent moves the status to
  \<open>LIVE_CONNECTING\<close>. From \<open>LIVE_CONNECTING\<close>, 2000 ms into the first candidate, it
  starts the sequence again: a second timeout for candidate 0 is pending beside the
  first, and one more \<open>play()\<close> promise.
\<close>

theorem goLiveNow_not_a_noop_when_live:
  "(let p = run [GoLiveNow, LiveEvent canplay] (started None); q = step GoLiveNow p
    in status (state p) = LIVE_ON_AIR \<and> status (state q) = LIVE_CONNECTING \<and>
       status (state q) \<noteq> status (state p)) \<and>
   (let p = run [GoLiveNow, Wait 2000] (started None); q = step GoLiveNow p
    in status (state p) = LIVE_CONNECTING \<and>
       map (\<lambda>t. (due t, task t)) (timers p) = [(5000, UrlTimeout streamUrls 0)] \<and>
       map (\<lambda>t. (due t, task t)) (timers q) =
         [(5000, UrlTimeout streamUrls 0), (7000, UrlTimeout streamUrls 0)] \<and>
       length (promises q) = Suc (length (promises p)))"
  by (simp add: unfold_run)

text \<open>
  C5, at a trace. \<open>teardown\<close> right after \<open>goLiveNow\<close> cancels the animation frame but
  leaves the 5000 ms timeout of candidate 0 pending: \<open>tryStreamUrls\<close> never stores its
  handles. The status is still \<open>LIVE_CONNECTING\<close>, so the timeouts of the three
  candidates fire one after the other, the handler runs, \<open>onStateChange\<close> is invoked
  with \<open>LIVE_RECONNECTING\<close>, and a reconnect timer is armed.
\<close>

theorem teardown_leaves_candidate_timers:
  "(let p = run [GoLiveNow, Teardown] (started None); q = elapse (elapse (elapse p))
    in map (\<lambda>t. (due t, task t)) (timers p) = [(5000, UrlTimeout streamUrls 0)] \<and>
       frames p = [] \<and>
       calls q = calls p @ [onStateChange (state q)] \<and>
       status (state q) = LIVE_RECONNECTING \<and> reconnectAttempts (state q) = 1 \<and>
       map (\<lambda>t. (due t, task t)) (timers q) = [(18000, Reconnect)])"
  by (simp add: unfold_run elapse_def next_timer_def)

text \<open>
  C6, as the code has it. Start a crossfade in any player with both sources and a target
  volume of at most 1, let any events follow except volume intents, and let a pending
  timer holding the crossfade closure at counter 50 fire. That run pauses the intro
  source, resets its position and volume to 0, sets the live source's volume to the
  target clamped at 0 (the target itself when it is in \<open>[0, 1]\<close>, 0 when it is
  negative), leaves the target as it was at the start and arms no timer. With a target
  above 1 the first assignment of the first fade step throws \<open>IndexSizeError\<close>, so
  that no handle is allocated, no timer armed, and the crossfade never completes.
\<close>

theorem crossfade_completion:
  assumes "introAudio p \<noteq> None" and "liveAudio p \<noteq> None"
  shows "(volume (state p) \<le> 1 \<and> list_all (\<lambda>e. \<not> is_SetVolume e) evs \<and>
          find (\<lambda>t. tid t = i) (timers (run evs (after (startCrossfade p)))) = Some t \<and>
          task t = CrossfadeStep 50 \<longrightarrow>
          (let q = run evs (after (startCrossfade p)); r = step (Timeout i) q
           in map_option audio_paused (introAudio r) = Some True \<and>
              map_option audio_currentTime (introAudio r) = Some 0 \<and>
              map_option audio_volume (introAudio r) = Some 0 \<and>
              map_option audio_volume (liveAudio r) = Some (max 0 (volume (state p))) \<and>
              volume (state r) = volume (state p) \<and>
              timers r = filter (\<lambda>t. tid t \<noteq> i) (timers q))) \<and>
         (1 < volume (state p) \<longrightarrow>
          (\<exists>q. startCrossfade p = Inl (IndexSizeError, q) \<and> state q = state p \<and>
               nextId q = nextId p \<and> set (timers q) \<subseteq> set (timers p)))"
proof (intro conjI impI)
  assume h: "volume (state p) \<le> 1 \<and> list_all (\<lambda>e. \<not> is_SetVolume e) evs \<and>
          find (\<lambda>t. tid t = i) (timers (run evs (after (startCrossfade p)))) = Some t \<and>
          task t = CrossfadeStep 50"
  let ?q = "run evs (after (startCrossfade p))"
  have "same_target p (after (startCrossfade p))" by (rule same_target_startCrossfade)
  moreover from h have "same_target (after (startCrossfade p)) ?q"
    by (simp add: same_target_run)
  ultimately have k: "same_target p ?q" by (rule same_target_trans)
  with assms obtain ia la where a: "introAudio ?q = Some ia" "liveAudio ?q = Some la"
    by (auto simp: same_target_def)
  from k have v: "volume (state ?q) = volume (state p)" by (simp add: same_target_def)
  with h have le: "volume (state ?q) \<le> 1" by simp
  from h have f: "find (\<lambda>t. tid t = i) (timers ?q) = Some t" "task t = CrossfadeStep 50"
    by simp_all
  note s = final_step [OF a f le]
  show "let q = ?q; r = step (Timeout i) q
        in map_option audio_paused (introAudio r) = Some True \<and>
           map_option audio_currentTime (introAudio r) = Some 0 \<and>
           map_option audio_volume (introAudio r) = Some 0 \<and>
           map_option audio_volume (liveAudio r) = Some (max 0 (volume (state p))) \<and>
           volume (state r) = volume (state p) \<and>
           timers r = filter (\<lambda>t. tid t \<noteq> i) (timers q)"
    unfolding Let_def by (simp only: s) (simp add: v)
next
  assume big: "1 < volume (state p)"
  from assms obtain ia la where a: "introAudio p = Some ia" "liveAudio p = Some la" by auto
  show "\<exists>q. startCrossfade p = Inl (IndexSizeError, q) \<and> state q = state p \<and>
           nextId q = nextId p \<and> set (timers q) \<subseteq> set (timers p)"
    by (auto simp: startCrossfade_throws [OF a big] clearTimeout_def split: option.splits)
qed

text \<open>
  The intro source is playing at position 3 when the live source becomes playable; the
  fade's timers fire with a \<open>timeupdate\<close> of the intro, a wait and a \<open>play\<close> of the live
  source between them. Before the last of them the intro is playing at position 4 and
  the live source is at 0.49; after it the intro is paused at 0 and the live source is
  at the target 0.5. And after \<open>setVolume(1.5)\<close> the start of a crossfade throws.
\<close>

theorem crossfade_completion_witness:
  "(let p = updateState (no_updates\<lparr>status_upd := Some LIVE_ON_AIR, isPlaying_upd := Some True\<rparr>)
              (run [TogglePlayPause, IntroEvent (timeupdate 3), GoLiveNow] (started None));
        evs = Timeout 4 # IntroEvent (timeupdate 4) # Timeout 5 # Wait 10 # LiveEvent play #
                map Timeout [6..<53];
        q = run evs (after (startCrossfade p)); r = step (Timeout 53) q
    in introAudio p \<noteq> None \<and> liveAudio p \<noteq> None \<and> volume (state p) = 1/2 \<and>
       list_all (\<lambda>e. \<not> is_SetVolume e) evs \<and>
       map (\<lambda>t. (tid t, task t)) (timers q) =
         [(3, UrlTimeout streamUrls 0), (53, CrossfadeStep 50)] \<and>
       map_option audio_paused (introAudio q) = Some False \<and>
       map_option audio_currentTime (introAudio q) = Some 4 \<and>
       map_option audio_volume (liveAudio q) = Some (49/100) \<and>
       map_option audio_paused (introAudio r) = Some True \<and>
       map_option audio_currentTime (introAudio r) = Some 0 \<and>
       map_option audio_volume (introAudio r) = Some 0 \<and>
       map_option audio_volume (liveAudio r) = Some (1/2)) \<and>
   (let p = run [SetVolume (3/2)] (started None)
    in introAudio p \<noteq> None \<and> liveAudio p \<noteq> None \<and> volume (state p) = 3/2 \<and>
       (\<exists>q. startCrossfade p = Inl (IndexSizeError, q)))"
proof -
  let ?p = "updateState (no_updates\<lparr>status_upd := Some LIVE_ON_AIR, isPlaying_upd := Some True\<rparr>)
              (run [TogglePlayPause, IntroEvent (timeupdate 3), GoLiveNow] (started None))"
  let ?evs = "Timeout 4 # IntroEvent (timeupdate 4) # Timeout 5 # Wait 10 # LiveEvent play #
                map Timeout [6..<53]"
  let ?q = "run ?evs (after (startCrossfade ?p))"
  let ?big = "run [SetVolume (3/2)] (started None)"
  have p: "introAudio ?p \<noteq> None" "liveAudio ?p \<noteq> None" "volume (state ?p) = 1/2"
    by (simp_all add: unfold_run)
  have evs: "list_all (\<lambda>e. \<not> is_SetVolume e) ?evs" by (simp add: list_all_iff)
  have q: "timers ?q = [\<lparr>tid = 3, due = 5000, task = UrlTimeout streamUrls 0\<rparr>,
                        \<lparr>tid = 53, due = 2000, task = CrossfadeStep 50\<rparr>]"
    "map_option audio_paused (introAudio ?q) = Some False"
    "map_option audio_currentTime (introAudio ?q) = Some 4"
    "map_option audio_volume (liveAudio ?q) = Some (49/100)"
    by (simp_all add: unfold_run)
  have f: "find (\<lambda>t. tid t = 53) (timers ?q) = Some \<lparr>tid = 53, due = 2000, task = CrossfadeStep 50\<rparr>"
    by (simp only: q(1)) simp
  have b: "introAudio ?big \<noteq> None" "liveAudio ?big \<noteq> None" "volume (state ?big) = 3/2"
    by (simp_all add: unfold_run)
  from crossfade_completion [OF p(1,2), of ?evs 53 "\<lparr>tid = 53, due = 2000, task = CrossfadeStep 50\<rparr>"]
    p(3) evs f
  have fin: "map_option audio_paused (introAudio (step (Timeout 53) ?q)) = Some True"
    "map_option audio_currentTime (introAudio (step (Timeout 53) ?q)) = Some 0"
    "map_option audio_volume (introAudio (step (Timeout 53) ?q)) = Some 0"
    "map_option audio_volume (liveAudio (step (Timeout 53) ?q)) = Some (1/2)"
    by (simp_all add: Let_def)
  from crossfade_completion [OF b(1,2)] b(3)
  have thrown: "\<exists>q. startCrossfade ?big = Inl (IndexSizeError, q)" by auto
  have qm: "map (\<lambda>t. (tid t, task t)) (timers ?q) =
         [(3, UrlTimeout streamUrls 0), (53, CrossfadeStep 50)]"
    by (simp only: q(1)) simp
  show ?thesis
    unfolding Let_def by (intro conjI) fact+
qed

text \<open>
  C6 as stated fails for a negative target. \<open>setVolume(-0.1)\<close> updates the state and
  then throws, so the target is \<open>-0.1\<close> while the sources keep 0.5; the intro is started,
  the live source becomes playable and the fade runs its fifty timers. It completes
  (intro paused at 0, no crossfade timer pending) with the live source at 0, not at the
  target.
\<close>

theorem crossfade_clamps_negative_target:
  "(let p = run [SetVolume (-1/10), TogglePlayPause, GoLiveNow, LiveEvent canplay] (started None);
        q = (crossfade_tick ^^ 50) p
    in volume (state p) = -1/10 \<and> map_option audio_paused (introAudio p) = Some False \<and>
       volume (state q) = -1/10 \<and>
       map_option audio_volume (liveAudio q) = Some 0 \<and>
       map_option audio_paused (introAudio q) = Some True \<and>
       map_option audio_currentTime (introAudio q) = Some 0 \<and>
       list_all (\<lambda>t. Some (tid t) \<noteq> crossfadeTimeout q) (timers q))"
proof -
  let ?start = "run [SetVolume (-1/10), TogglePlayPause, GoLiveNow, LiveEvent canplay]
                  (started None)"
  let ?mid = "(crossfade_tick ^^ 49) ?start"
  have f1: "fading 1 ?start" and v0: "volume (state ?start) = -1/10"
    and pl: "map_option audio_paused (introAudio ?start) = Some False"
    by (simp_all add: unfold_run fading_def)
  have le: "volume (state ?start) \<le> 1" by (simp only: v0)
  from fading_ticks [OF f1 _ le, of 49]
  have f50: "fading 50 ?mid" and s: "state ?mid = state ?start" by simp_all
  have e: "(crossfade_tick ^^ 50) ?start = crossfade_tick ?mid"
  proof -
    have "(50::nat) = Suc 49" by simp
    then show ?thesis by (simp only: funpow.simps o_apply)
  qed
  from le s have le': "volume (state ?mid) \<le> 1" by simp
  note l = fading_last_tick [OF f50 le']
  have m: "max 0 (volume (state ?mid)) = 0" by (simp only: s v0)
  let ?fin = "(crossfade_tick ^^ 50) ?start"
  have g: "volume (state ?fin) = -1/10"
    "map_option audio_paused (introAudio ?fin) = Some True"
    "map_option audio_currentTime (introAudio ?fin) = Some 0"
    "list_all (\<lambda>t. Some (tid t) \<noteq> crossfadeTimeout ?fin) (timers ?fin)"
    using l(1,3,4,6) by (simp_all only: e s v0)
  have g': "map_option audio_volume (liveAudio ?fin) = Some 0"
    using l(5) by (simp only: e m)
  show ?thesis
    unfolding Let_def by (intro conjI) fact+
qed

text \<open>
  C7, as the code has it. With both sources present, \<open>setVolume v\<close> for \<open>v\<close> in
  \<open>[0, 1]\<close> writes \<open>v\<close> to the state and to the volume of both sources at once and
  leaves the timers and the crossfade handle alone; a run of the crossfade closure at
  counter \<open>k \<le> 50\<close> after it sets the intro source to \<open>(1 - k/50) * v\<close> and the live
  source to \<open>(k/50) * v\<close>. For \<open>v\<close> outside \<open>[0, 1]\<close> it writes \<open>v\<close> to the state,
  delivers the snapshot and throws \<open>IndexSizeError\<close>, with both sources as they were.
\<close>

theorem setVolume_writes_both_sources:
  assumes "introAudio p = Some ia" and "liveAudio p = Some la"
  shows "(0 \<le> v \<and> v \<le> 1 \<longrightarrow>
          (\<exists>q. setVolume v p = Inr q \<and> volume (state q) = v \<and>
               introAudio q = Some (ia\<lparr>audio_volume := v\<rparr>) \<and>
               liveAudio q = Some (la\<lparr>audio_volume := v\<rparr>) \<and>
               timers q = timers p \<and> crossfadeTimeout q = crossfadeTimeout p \<and>
               (k \<le> 50 \<longrightarrow>
                  map_option audio_volume (introAudio (after (crossfade k q))) =
                    Some (max 0 ((1 - real k / 50) * v)) \<and>
                  map_option audio_volume (liveAudio (after (crossfade k q))) =
                    Some (max 0 (real k / 50 * v))))) \<and>
         (\<not> (0 \<le> v \<and> v \<le> 1) \<longrightarrow>
          (\<exists>q. setVolume v p = Inl (IndexSizeError, q) \<and> volume (state q) = v \<and>
               calls q = calls p @ [onStateChange (state q)] \<and>
               introAudio q = Some ia \<and> liveAudio q = Some la \<and> timers q = timers p \<and>
               crossfadeTimeout q = crossfadeTimeout p))"
proof (intro conjI impI)
  assume r: "0 \<le> v \<and> v \<le> 1"
  let ?q = "(updateState (no_updates\<lparr>volume_upd := Some v\<rparr>) p)
              \<lparr>introAudio := Some (ia\<lparr>audio_volume := v\<rparr>),
               liveAudio := Some (la\<lparr>audio_volume := v\<rparr>)\<rparr>"
  from r have e: "setVolume v p = Inr ?q" by (simp add: setVolume_in_range [OF assms])
  have q: "volume (state ?q) = v" "introAudio ?q = Some (ia\<lparr>audio_volume := v\<rparr>)"
    "liveAudio ?q = Some (la\<lparr>audio_volume := v\<rparr>)" "timers ?q = timers p"
    "crossfadeTimeout ?q = crossfadeTimeout p"
    by (simp_all add: updateState_def merge_def no_updates_def Let_def)
  have fade: "map_option audio_volume (introAudio (after (crossfade k ?q))) =
                Some (max 0 ((1 - real k / 50) * v)) \<and>
              map_option audio_volume (liveAudio (after (crossfade k ?q))) =
                Some (max 0 (real k / 50 * v))" if k: "k \<le> 50"
  proof -
    from r q(1) have le: "volume (state ?q) \<le> 1" by simp
    from crossfade_volumes [OF q(2,3) k le] show ?thesis by (simp only: q(1))
  qed
  from e q fade show "\<exists>q. setVolume v p = Inr q \<and> volume (state q) = v \<and>
               introAudio q = Some (ia\<lparr>audio_volume := v\<rparr>) \<and>
               liveAudio q = Some (la\<lparr>audio_volume := v\<rparr>) \<and>
               timers q = timers p \<and> crossfadeTimeout q = crossfadeTimeout p \<and>
               (k \<le> 50 \<longrightarrow>
                  map_option audio_volume (introAudio (after (crossfade k q))) =
                    Some (max 0 ((1 - real k / 50) * v)) \<and>
                  map_option audio_volume (liveAudio (after (crossfade k q))) =
                    Some (max 0 (real k / 50 * v)))"
    by blast
next
  assume r: "\<not> (0 \<le> v \<and> v \<le> 1)"
  show "\<exists>q. setVolume v p = Inl (IndexSizeError, q) \<and> volume (state q) = v \<and>
               calls q = calls p @ [onStateChange (state q)] \<and>
               introAudio q = Some ia \<and> liveAudio q = Some la \<and> timers q = timers p \<and>
               crossfadeTimeout q = crossfadeTimeout p"
    using assms
    by (simp add: setVolume_out_of_range [OF assms(1) r] updateState_def merge_def
        no_updates_def Let_def)
qed

text \<open>
  At the start of a crossfade, with \<open>v = 0.2\<close> and \<open>k = 25\<close>, and with \<open>v = 1.5\<close>.
\<close>

theorem setVolume_writes_both_sources_witness:
  "(let p = run [GoLiveNow, LiveEvent canplay] (started None)
    in introAudio p \<noteq> None \<and> liveAudio p \<noteq> None \<and>
       map_option audio_volume (liveAudio p) = Some 0 \<and>
       (\<exists>q. setVolume (1/5) p = Inr q \<and>
            map_option audio_volume (liveAudio q) = Some (1/5) \<and>
            map_option audio_volume (liveAudio (after (crossfade 25 q))) = Some (1/10)) \<and>
       (\<exists>q. setVolume (3/2) p = Inl (IndexSizeError, q) \<and> volume (state q) = 3/2 \<and>
            map_option audio_volume (liveAudio q) = Some 0))"
proof -
  let ?p = "run [GoLiveNow, LiveEvent canplay] (started None)"
  have h: "introAudio ?p = Some \<lparr>audio_src = ''/music/intro.mp3'', audio_volume = 1/2,
             audio_paused = True, audio_currentTime = 0, audio_duration = 0\<rparr>"
          "liveAudio ?p = Some \<lparr>audio_src = streamUrls ! 0, audio_volume = 0,
             audio_paused = False, audio_currentTime = 0, audio_duration = 0\<rparr>"
    by (simp_all add: unfold_run)
  have k: "(25::nat) \<le> 50" by simp
  from setVolume_writes_both_sources [OF h, of "1/5" 25] k
  obtain q where "setVolume (1/5) ?p = Inr q"
    "map_option audio_volume (liveAudio q) = Some (1/5)"
    "map_option audio_volume (liveAudio (after (crossfade 25 q))) = Some (1/10)"
    by auto
  moreover from setVolume_writes_both_sources [OF h, of "3/2" 0]
  obtain q' where "setVolume (3/2) ?p = Inl (IndexSizeError, q')" "volume (state q') = 3/2"
    "map_option audio_volume (liveAudio q') = Some 0"
    by auto
  ultimately show ?thesis unfolding Let_def using h by (simp only:) simp
qed

text \<open>
  C7 as stated fails. With target 0.5, after the fade step at counter 25 both sources
  are at 0.25. \<open>setVolume(0.2)\<close> puts both at 0.2 at once, a jump of 0.05 where one
  step's increment is 0.01; the next fade step puts the live source at 0.104 and the
  intro source at 0.096, a jump of 0.096 where one step's increment is now 0.004.
\<close>

theorem setVolume_jumps_during_crossfade:
  "(let p = (crossfade_tick ^^ 25) (run [GoLiveNow, LiveEvent canplay] (started None));
        q = step (SetVolume (1/5)) p;
        r = crossfade_tick q
    in map_option audio_volume (liveAudio p) = Some (1/4) \<and>
       map_option audio_volume (introAudio p) = Some (1/4) \<and>
       map_option audio_volume (liveAudio q) = Some (1/5) \<and>
       map_option audio_volume (introAudio q) = Some (1/5) \<and>
       map_option audio_volume (liveAudio r) = Some (13/125) \<and>
       map_option audio_volume (introAudio r) = Some (12/125) \<and>
       volume (state p) / 50 < 1/4 - 1/5 \<and> volume (state q) / 50 < 1/5 - 13/125)"
proof -
  let ?start = "run [GoLiveNow, LiveEvent canplay] (started None)"
  let ?mid = "(crossfade_tick ^^ 24) ?start"
  let ?p = "(crossfade_tick ^^ 25) ?start"
  let ?q = "step (SetVolume (1/5)) ?p"
  have f1: "fading 1 ?start" and v0: "volume (state ?start) = 1/2"
    by (simp_all add: unfold_run fading_def)
  have le: "volume (state ?start) \<le> 1" by (simp only: v0)
  from fading_ticks [OF f1 _ le, of 24]
  have f25: "fading 25 ?mid" and s24: "state ?mid = state ?start"
    by simp_all
  have e: "?p = crossfade_tick ?mid"
  proof -
    have "(25::nat) = Suc 24" by simp
    then show ?thesis by (simp only: funpow.simps o_apply)
  qed
  have lt: "(25::nat) < 50" by simp
  from le s24 have le24: "volume (state ?mid) \<le> 1" by simp
  note t25 = fading_tick [OF f25 lt le24]
  have f26: "fading 26 ?p" using t25(1) e by simp
  have sp: "state ?p = state ?start" using t25(2) s24 e by simp
  have a: "map_option audio_volume (liveAudio ?p) = Some (1/4)"
          "map_option audio_volume (introAudio ?p) = Some (1/4)"
    using t25(3,4) s24 v0 e by simp_all
  from f26 obtain ia la where present: "introAudio ?p = Some ia" "liveAudio ?p = Some la"
    by (auto simp: fading_def)
  have in_range: "(0::real) \<le> 1/5" "(1/5::real) \<le> 1" by simp_all
  note sv = setVolume_in_range [OF present in_range]
  have b: "map_option audio_volume (liveAudio ?q) = Some (1/5)"
          "map_option audio_volume (introAudio ?q) = Some (1/5)"
    and vq: "volume (state ?q) = 1/5"
    by (simp_all only: step.simps sv after_simps)
       (simp_all add: updateState_def merge_def no_updates_def Let_def)
  have fq: "fading 26 ?q" using fading_setVolume [OF f26, of "1/5"] by (simp only: step.simps)
  have lt': "(26::nat) < 50" by simp
  have leq: "volume (state ?q) \<le> 1" by (simp only: vq)
  note t26 = fading_tick [OF fq lt' leq]
  have n: "max 0 (real 26 / 50 * (1/5)) = 13/125" "max 0 ((1 - real 26 / 50) * (1/5)) = 12/125"
    by simp_all
  have c: "map_option audio_volume (liveAudio (crossfade_tick ?q)) = Some (13/125)"
          "map_option audio_volume (introAudio (crossfade_tick ?q)) = Some (12/125)"
    using t26(3,4) by (simp_all only: vq n)
  show ?thesis using a b c sp v0 vq by (simp add: Let_def)
qed

text \<open>
  C8, at a trace of one go-live sequence. Candidates 0 and 1 time out; the \<open>play()\<close>
  promise of candidate 2 is rejected 4500 ms into its timeout, which arms the 1000 ms
  retry; the timeout of candidate 2 fires first (15000 ms), finds \<open>LIVE_CONNECTING\<close>,
  reaches the end of the list and runs the handler; then the retry fires (15500 ms),
  which does not test \<open>status\<close>, reaches the end of the list and runs the handler
  again. The sequence has delivered two \<open>LIVE_RECONNECTING\<close> snapshots, with the counter
  at 1 and at 2, and two reconnect timers are pending.
\<close>

theorem reconnect_handler_runs_twice:
  "(let evs = [GoLiveNow, Timeout 3, Timeout 5, Wait 4500, PlayRejected 6, Timeout 7,
               Timeout 8];
        p = run [GoLiveNow] (started None); q = run evs (started None)
    in timely evs (started None) \<and>
       snapshots (calls q) = snapshots (calls p) @
         [state p\<lparr>status := LIVE_RECONNECTING, reconnectAttempts := 1\<rparr>,
          state p\<lparr>status := LIVE_RECONNECTING, reconnectAttempts := 2\<rparr>] \<and>
       status (state p) = LIVE_CONNECTING \<and> reconnectAttempts (state p) = 0 \<and>
       map (\<lambda>t. (due t, task t)) (timers q) = [(18000, Reconnect), (18500, Reconnect)])"
  by (simp add: unfold_run)

text \<open>
  C9. \<open>init\<close> returns normally wherever the \<open>try\<close> block throws. If an acquisition
  throws, the state has \<open>LIVE_UNAVAILABLE\<close> and that state is delivered to
  \<open>onStateChange\<close>, the only callback invoked. Otherwise, on a player that is not
  playing and whose volume is in \<open>[0, 1]\<close> (a new one), the state has \<open>INTRO\<close> and
  \<open>isPlaying = false\<close>, both sources exist and are paused, and the state is the last
  thing delivered. (Otherwise, with a volume out of range, the assignment to the intro
  source's volume throws inside the \<open>try\<close> and \<open>init\<close> reports \<open>LIVE_UNAVAILABLE\<close> in
  the same way.)
\<close>

theorem init_reports_failure_as_state:
  assumes "\<not> isPlaying (state p)"
  shows "\<exists>q. init f p = Inr q \<and>
     (case f of
        Some x \<Rightarrow>
          status (state q) = LIVE_UNAVAILABLE \<and> calls q = calls p @ [onStateChange (state q)]
      | None \<Rightarrow>
          if 0 \<le> volume (state p) \<and> volume (state p) \<le> 1
          then status (state q) = INTRO \<and> \<not> isPlaying (state q) \<and>
               map_option audio_paused (introAudio q) = Some True \<and>
               map_option audio_paused (liveAudio q) = Some True \<and>
               last (calls q) = onStateChange (state q)
          else status (state q) = LIVE_UNAVAILABLE \<and>
               calls q = calls p @ [onStateChange (state q)])"
proof (cases f)
  case None
  show ?thesis
  proof (cases "0 \<le> volume (state p) \<and> volume (state p) \<le> 1")
    case True
    with None assms show ?thesis
      by (simp add: init_def init_try_def updateState_def merge_def no_updates_def Let_def
          startFrequencyAnalysis_def analyze_def requestAnimationFrame_def
          setupIntroListeners_def setupLiveListeners_def new_Audio_def split_beta
          and_then_def assign_intro_volume_def assign_live_volume_def set_volume_def)
  next
    case False
    with None show ?thesis
      by (auto simp: init_def init_try_def updateState_def merge_def no_updates_def Let_def
          and_then_def assign_intro_volume_def set_volume_def)
  qed
next
  case (Some x)
  then show ?thesis
    by (cases x)
       (auto simp: init_def init_try_def updateState_def merge_def no_updates_def Let_def
          and_then_def assign_intro_volume_def assign_live_volume_def set_volume_def)
qed

text \<open>
  On a new player, with no fault and with no audio context; and on a player whose
  volume was set to 1.5 before \<open>init\<close>.
\<close>

theorem init_reports_failure_as_state_witness:
  "\<not> isPlaying (state (new_LivePlayer True)) \<and>
   (\<exists>q. init None (new_LivePlayer True) = Inr q \<and> status (state q) = INTRO \<and>
        \<not> isPlaying (state q)) \<and>
   (\<exists>q. init (Some NoAudioContext) (new_LivePlayer True) = Inr q \<and>
        status (state q) = LIVE_UNAVAILABLE) \<and>
   (\<exists>q. init None (after (setVolume (3/2) (new_LivePlayer True))) = Inr q \<and>
        status (state q) = LIVE_UNAVAILABLE)"
proof -
  have h: "\<not> isPlaying (state (new_LivePlayer True))"
    and v: "0 \<le> volume (state (new_LivePlayer True)) \<and> volume (state (new_LivePlayer True)) \<le> 1"
    by (simp_all add: new_LivePlayer_def)
  let ?loud = "after (setVolume (3/2) (new_LivePlayer True))"
  have h': "\<not> isPlaying (state ?loud)"
    and v': "\<not> (0 \<le> volume (state ?loud) \<and> volume (state ?loud) \<le> 1)"
    by (simp_all add: new_LivePlayer_def setVolume_def updateState_def merge_def no_updates_def
        Let_def and_then_def)
  from init_reports_failure_as_state [OF h, of None] v
  obtain q1 where "init None (new_LivePlayer True) = Inr q1" "status (state q1) = INTRO"
    "\<not> isPlaying (state q1)"
    by auto
  moreover from init_reports_failure_as_state [OF h, of "Some NoAudioContext"]
  obtain q2 where "init (Some NoAudioContext) (new_LivePlayer True) = Inr q2"
    "status (state q2) = LIVE_UNAVAILABLE"
    by auto
  moreover from init_reports_failure_as_state [OF h', of None] v'
  obtain q3 where "init None ?loud = Inr q3" "status (state q3) = LIVE_UNAVAILABLE"
    by auto
  ultimately show ?thesis using h by blast
qed

text \<open>
  C10. \<open>updateState\<close> gives every property the update names its new value and keeps
  every other one, invokes \<open>onStateChange\<close> once, last, with the new state, and changes
  nothing else of the player. No other code writes the state: in every player reached
  from an initialised one by any events, the last snapshot delivered is the state.
\<close>

theorem updateState_merges_and_notifies:
  "(let q = updateState u p
    in status (state q) = (case status_upd u of None \<Rightarrow> status (state p) | Some v \<Rightarrow> v) \<and>
       isPlaying (state q) =
         (case isPlaying_upd u of None \<Rightarrow> isPlaying (state p) | Some v \<Rightarrow> v) \<and>
       volume (state q) = (case volume_upd u of None \<Rightarrow> volume (state p) | Some v \<Rightarrow> v) \<and>
       currentTime (state q) =
         (case currentTime_upd u of None \<Rightarrow> currentTime (state p) | Some v \<Rightarrow> v) \<and>
       duration (state q) =
         (case duration_upd u of None \<Rightarrow> duration (state p) | Some v \<Rightarrow> v) \<and>
       reconnectAttempts (state q) =
         (case reconnectAttempts_upd u of None \<Rightarrow> reconnectAttempts (state p) | Some v \<Rightarrow> v) \<and>
       maxReconnectAttempts (state q) =
         (case maxReconnectAttempts_upd u of
            None \<Rightarrow> maxReconnectAttempts (state p) | Some v \<Rightarrow> v) \<and>
       calls q = calls p @ [onStateChange (state q)] \<and>
       q\<lparr>state := state p, calls := calls p\<rparr> = p) \<and>
   snapshots (calls (run evs (started f))) \<noteq> [] \<and>
   last (snapshots (calls (run evs (started f)))) = state (run evs (started f))"
proof -
  have "consistent (run evs (started f))"
    by (rule consistent_run) (rule consistent_started)
  then show ?thesis
    by (simp add: consistent_def updateState_def merge_def Let_def)
qed

text \<open>
  Setting \<open>isPlaying\<close> alone on an initialised player.
\<close>

theorem updateState_merges_and_notifies_witness:
  "(let p = started None; q = updateState (no_updates\<lparr>isPlaying_upd := Some True\<rparr>) p
    in isPlaying (state q) \<and> \<not> isPlaying (state p) \<and> status (state q) = INTRO \<and>
       volume (state q) = 1/2 \<and> reconnectAttempts (state q) = 0 \<and>
       length (calls q) = Suc (length (calls p)) \<and> last (calls q) = onStateChange (state q))"
  using updateState_merges_and_notifies
          [of "no_updates\<lparr>isPlaying_upd := Some True\<rparr>" "started None" "[]" None]
  by (simp add: unfold_run)

end
